theory Spec2Isabelle
  imports Complex_Main
begin

section \<open>JavaScript numbers and strings\<close>

text \<open>
  The analysed code is JavaScript. A value that may be missing is a \<open>jsval\<close>:
  \<open>undefined\<close>, \<open>null\<close>, a finite number (a real here: rounding of IEEE doubles is
  not modelled) or \<open>NaN\<close>. The infinities are not represented; every division of the
  modelled code has a divisor the source guards to be non-zero.
\<close>

datatype jsval = Undefined | Null | Number real | NaN

text \<open>\<open>ToNumber\<close>: \<open>undefined\<close> becomes \<open>NaN\<close>, \<open>null\<close> becomes 0.\<close>

fun toNumber :: "jsval \<Rightarrow> jsval" where
  "toNumber Undefined = NaN"
| "toNumber Null = Number 0"
| "toNumber (Number r) = Number r"
| "toNumber NaN = NaN"

fun js_arith :: "(real \<Rightarrow> real \<Rightarrow> real) \<Rightarrow> jsval \<Rightarrow> jsval \<Rightarrow> jsval" where
  "js_arith f a b =
     (case toNumber a of
        Number x \<Rightarrow> (case toNumber b of Number y \<Rightarrow> Number (f x y) | _ \<Rightarrow> NaN)
      | _ \<Rightarrow> NaN)"

definition js_add :: "jsval \<Rightarrow> jsval \<Rightarrow> jsval" where
  "js_add = js_arith (\<lambda>x y. x + y)"

definition js_mul :: "jsval \<Rightarrow> jsval \<Rightarrow> jsval" where
  "js_mul = js_arith (\<lambda>x y. x * y)"

definition js_div :: "jsval \<Rightarrow> jsval \<Rightarrow> jsval" where
  "js_div a b = (if toNumber b = Number 0 then NaN else js_arith (\<lambda>x y. x / y) a b)"

definition js_min :: "jsval \<Rightarrow> jsval \<Rightarrow> jsval" where
  "js_min = js_arith min"

text \<open>\<open>a < b\<close> on numbers is false as soon as one side is \<open>NaN\<close>.\<close>

definition js_lt :: "jsval \<Rightarrow> jsval \<Rightarrow> bool" where
  "js_lt a b =
     (case toNumber a of
        Number x \<Rightarrow> (case toNumber b of Number y \<Rightarrow> x < y | _ \<Rightarrow> False)
      | _ \<Rightarrow> False)"

text \<open>\<open>Math.round\<close> rounds to the nearest integer, a tie towards \<open>+\<infinity>\<close>.\<close>

definition math_round :: "real \<Rightarrow> real" where
  "math_round x = of_int \<lfloor>x + 1 / 2\<rfloor>"

fun js_round :: "jsval \<Rightarrow> jsval" where
  "js_round v = (case toNumber v of Number x \<Rightarrow> Number (math_round x) | _ \<Rightarrow> NaN)"

text \<open>\<open>typeof v === 'number' && isFinite(v)\<close>.\<close>

fun finite_number :: "jsval \<Rightarrow> bool" where
  "finite_number (Number r) = True"
| "finite_number _ = False"

text \<open>
  Strings are \<open>string\<close>, one \<open>char\<close> per code unit. The case mapping and the white
  space are those of ASCII, where they agree with \<open>String.prototype.toLowerCase\<close> and
  \<open>\s\<close>; code units above 127 are left alone, so the Unicode mappings of JavaScript
  (which depend on the neighbouring characters, and do not distribute over
  concatenation) are not modelled. Of the case mapping the proofs below use only that
  it maps the empty string to itself.
\<close>

definition toLowerChar :: "char \<Rightarrow> char" where
  "toLowerChar c =
     (let n = (of_char c :: nat) in if 65 \<le> n \<and> n \<le> 90 then char_of (n + 32) else c)"

definition toLowerCase :: "string \<Rightarrow> string" where
  "toLowerCase s = map toLowerChar s"

definition is_space :: "char \<Rightarrow> bool" where
  "is_space c = (of_char c \<in> {9, 10, 11, 12, 13, 32 :: nat})"

definition trim :: "string \<Rightarrow> string" where
  "trim s = rev (dropWhile is_space (rev (dropWhile is_space s)))"

text \<open>\<open>s.startsWith(w)\<close> and \<open>s.includes(w)\<close> (\<open>str_includes\<close>).\<close>

fun startsWith :: "string \<Rightarrow> string \<Rightarrow> bool" where
  "startsWith s [] = True"
| "startsWith [] (c # w) = False"
| "startsWith (d # s) (c # w) = (d = c \<and> startsWith s w)"

fun str_includes :: "string \<Rightarrow> string \<Rightarrow> bool" where
  "str_includes [] w = (w = [])"
| "str_includes (c # s) w = (startsWith (c # s) w \<or> str_includes s w)"

section \<open>Spam scorer: \<open>checkStopWords\<close> (htmlParser.js)\<close>

text \<open>
  \<open>textLower.match(regex)\<close> with the escaped word and the flag \<open>g\<close> lists the
  occurrences of the word from left to right, the search resuming after the end of each
  one; its length is the count. The word is never empty there.
\<close>

function match_count :: "string \<Rightarrow> string \<Rightarrow> nat" where
  "match_count w [] = 0"
| "match_count w (c # s) =
     (if w \<noteq> [] \<and> startsWith (c # s) w
      then Suc (match_count w (drop (length w - 1) s))
      else match_count w s)"
  by pat_completeness auto
termination
  by (relation "measure (\<lambda>(w, s). length s)") auto

record spam_finding =
  word :: string
  count :: nat

record spam_result =
  found :: "spam_finding list"
  found_count :: nat
  score :: real

text \<open>The body of the \<open>forEach\<close> over the stop words, on the list of findings so far.\<close>

definition stop_word_step :: "string \<Rightarrow> spam_finding list \<Rightarrow> string \<Rightarrow> spam_finding list" where
  "stop_word_step textLower fnd w =
     (let wordLower = trim (toLowerCase w) in
      if wordLower \<noteq> [] \<and> str_includes textLower wordLower then
        (let cnt = match_count wordLower textLower in
         if \<not> list_ex (\<lambda>item. word item = wordLower) fnd
         then fnd @ [\<lparr>word = wordLower, count = cnt\<rparr>]
         else fnd)
      else fnd)"

text \<open>Lines 145 to 154: the score from the findings.\<close>

definition spam_score :: "spam_finding list \<Rightarrow> real" where
  "spam_score fnd =
     (if length fnd > 0 then
        (let score = min 10 (real (length fnd) * 2);
             totalOccurrences = foldl (\<lambda>sum item. sum + count item) 0 fnd
         in if totalOccurrences > 10 then 10
            else if totalOccurrences > 5 then min 10 (score + 2)
            else score)
      else 0)"

definition checkStopWords :: "string \<Rightarrow> string list \<Rightarrow> spam_result" where
  "checkStopWords text stopWords =
     (if text = [] \<or> stopWords = [] then \<lparr>found = [], found_count = 0, score = 0\<rparr>
      else
        (let textLower = toLowerCase text;
             fnd = foldl (stop_word_step textLower) [] stopWords
         in \<lparr>found = fnd, found_count = length fnd,
             score = math_round (spam_score fnd * 10) / 10\<rparr>))"

section \<open>Metrics aggregator (metricsAnalyzer.js)\<close>

text \<open>\<open>v || null\<close> on a number: 0 and \<open>NaN\<close> are falsy, as \<open>undefined\<close> and \<open>null\<close>.\<close>

fun truthy :: "jsval \<Rightarrow> bool" where
  "truthy (Number r) = (r \<noteq> 0)"
| "truthy _ = False"

definition or_null :: "jsval \<Rightarrow> jsval" where
  "or_null v = (if truthy v then v else Null)"

record opr_metrics =
  opr_domainRating :: jsval
  opr_rankAbsolute :: jsval

text \<open>
  What the rank service answered: the request threw or was not \<open>ok\<close> (both end in
  the \<open>catch\<close>), or a body with its \<open>status_code\<close> and the \<open>rank\<close> and
  \<open>rank_absolute\<close> of each entry of \<open>response\<close>.
\<close>

datatype opr_reply = OprFailed | OprBody nat "(jsval \<times> jsval) list"

fun getOpenPageRankMetrics :: "opr_reply \<Rightarrow> opr_metrics option" where
  "getOpenPageRankMetrics OprFailed = None"
| "getOpenPageRankMetrics (OprBody status_code response) =
     (case response of
        result # _ \<Rightarrow>
          if status_code = 200
          then Some \<lparr>opr_domainRating = or_null (fst result), opr_rankAbsolute = or_null (snd result)\<rparr>
          else None
      | [] \<Rightarrow> None)"

text \<open>\<open>domain.split('.').pop()?.toLowerCase()\<close>: what follows the last dot.\<close>

definition domainExtension :: "string \<Rightarrow> string" where
  "domainExtension domain = toLowerCase (rev (takeWhile (\<lambda>c. c \<noteq> CHR ''.'') (rev domain)))"

text \<open>
  \<open>getDomainAuthorityMetrics\<close>: whether the HTTPS probe answered \<open>ok\<close> and the value
  of \<open>Math.floor(Math.random() * 20)\<close> are inputs.
\<close>

definition getDomainAuthorityMetrics :: "string \<Rightarrow> bool \<Rightarrow> nat \<Rightarrow> real option" where
  "getDomainAuthorityMetrics domain httpsOk rnd =
     (let isTLD = (domainExtension domain \<in> set [''com'', ''org'', ''net'', ''edu'', ''gov'']);
          baseScore = (if isTLD then 40 else 30) + (if httpsOk then 10 else 0)
      in Some (min 100 (baseScore + real rnd)))"

record tf_metrics =
  tf_trustFlow :: real
  tf_citationFlow :: real

definition getTrustFlowMetrics :: "string \<Rightarrow> jsval option \<Rightarrow> tf_metrics option" where
  "getTrustFlowMetrics domain backlinkData =
     (let q = (case backlinkData of Some (Number a) \<Rightarrow> if a \<noteq> 0 then Some a else None | _ \<Rightarrow> None);
          trustFlow = (case q of Some a \<Rightarrow> min 50 (of_int \<lfloor>a / 2\<rfloor>) | None \<Rightarrow> 15);
          citationFlow = (case q of Some a \<Rightarrow> min 50 (of_int \<lfloor>a / 2\<rfloor> + 5) | None \<Rightarrow> 15);
          ext = domainExtension domain;
          trustFlow2 = (if ext \<in> set [''org'', ''edu'', ''gov''] then trustFlow + 10
                        else if ext \<in> set [''com'', ''net''] then trustFlow + 5 else trustFlow);
          citationFlow2 = (if ext \<in> set [''org'', ''edu'', ''gov''] then citationFlow + 5
                           else if ext \<in> set [''com'', ''net''] then citationFlow + 3 else citationFlow)
      in Some \<lparr>tf_trustFlow = min 100 trustFlow2, tf_citationFlow = min 100 citationFlow2\<rparr>)"

text \<open>
  The \<open>metrics\<close> object under construction: a property never assigned reads as
  \<open>undefined\<close>.
\<close>

record domain_metrics =
  domainRating :: jsval
  rankAbsolute :: jsval
  domainAuthority :: jsval
  trustFlow :: jsval
  citationFlow :: jsval
  spamScore :: real
  overallQualityScore :: jsval

definition calculateSpamScore :: "jsval \<Rightarrow> jsval \<Rightarrow> jsval \<Rightarrow> jsval \<Rightarrow> real" where
  "calculateSpamScore dr da tf cf =
     (let s1 = (if dr \<noteq> Null \<and> js_lt dr (Number 20) then 30
                else if dr \<noteq> Null \<and> js_lt dr (Number 40) then 15 else 0);
          s2 = s1 + (if da \<noteq> Null \<and> js_lt da (Number 20) then 25
                     else if da \<noteq> Null \<and> js_lt da (Number 40) then 12 else 0);
          s3 = s2 + (if tf \<noteq> Null \<and> js_lt tf (Number 10) then 20
                     else if tf \<noteq> Null \<and> js_lt tf (Number 20) then 10 else 0);
          s4 = s3 + (if cf \<noteq> Null \<and> tf \<noteq> Null
                     then (let ratio = js_div cf (if truthy tf then tf else Number 1)
                           in if js_lt (Number 3) ratio then 15 else 0)
                     else 0)
      in min 100 s4)"

text \<open>
  \<open>getDomainMetrics\<close> after the three lookups have settled: each is \<open>None\<close> for
  \<open>null\<close>. Lines 198 to 214 are the quality score.
\<close>

definition getDomainMetrics ::
    "opr_metrics option \<Rightarrow> real option \<Rightarrow> tf_metrics option \<Rightarrow> domain_metrics" where
  "getDomainMetrics oprMetrics daMetrics tfMetrics =
     (let dr = (case oprMetrics of Some m \<Rightarrow> opr_domainRating m | None \<Rightarrow> Undefined);
          ra = (case oprMetrics of Some m \<Rightarrow> opr_rankAbsolute m | None \<Rightarrow> Undefined);
          da = (case daMetrics of Some a \<Rightarrow> Number a | None \<Rightarrow> Undefined);
          tf = (case tfMetrics of Some m \<Rightarrow> Number (tf_trustFlow m) | None \<Rightarrow> Undefined);
          cf = (case tfMetrics of Some m \<Rightarrow> Number (tf_citationFlow m) | None \<Rightarrow> Undefined);
          q0 = Number 0;
          f0 = (0 :: nat);
          (q1, f1) = (if dr \<noteq> Null
                      then (js_add q0 (js_min (Number 100) (js_mul dr (Number 2))), f0 + 1)
                      else (q0, f0));
          (q2, f2) = (if da \<noteq> Null then (js_add q1 da, f1 + 1) else (q1, f1));
          (q3, f3) = (if tf \<noteq> Null then (js_add q2 tf, f2 + 1) else (q2, f2))
      in \<lparr>domainRating = dr, rankAbsolute = ra, domainAuthority = da, trustFlow = tf,
          citationFlow = cf, spamScore = calculateSpamScore dr da tf cf,
          overallQualityScore = (if f3 > 0 then js_round (js_div q3 (Number (real f3))) else Null)\<rparr>)"

section \<open>Risk aggregator (the tail of \<open>analyzeDomainComplete\<close>)\<close>

datatype recommendation = BUY | REVIEW | CAUTION | AVOID

datatype risk_level = LOW | MEDIUM | HIGH

record risk_factor =
  factor_name :: string
  factor_value :: real
  factor_weight :: real

text \<open>
  \<open>(x && typeof x.f === 'number' && isFinite(x.f)) ? Math.min(100, Math.max(0, e)) : null\<close>,
  for \<open>e = x.f * 10\<close> (spam) and \<open>e = 100 - x.f\<close> (the other three).
\<close>

definition spamRisk :: "jsval \<Rightarrow> real option" where
  "spamRisk maxSpamScore =
     (case maxSpamScore of Number x \<Rightarrow> Some (min 100 (max 0 (x * 10))) | _ \<Rightarrow> None)"

definition invertedRisk :: "jsval \<Rightarrow> real option" where
  "invertedRisk quality =
     (case quality of Number x \<Rightarrow> Some (min 100 (max 0 (100 - x))) | _ \<Rightarrow> None)"

definition pushFactor :: "string \<Rightarrow> real option \<Rightarrow> real \<Rightarrow> risk_factor list \<Rightarrow> risk_factor list" where
  "pushFactor nm risk w fs =
     (case risk of
        Some v \<Rightarrow> if v \<ge> 0 then fs @ [\<lparr>factor_name = nm, factor_value = v, factor_weight = w\<rparr>] else fs
      | None \<Rightarrow> fs)"

definition riskFactors :: "jsval \<Rightarrow> jsval \<Rightarrow> jsval \<Rightarrow> jsval \<Rightarrow> risk_factor list" where
  "riskFactors maxSpamScore averageQualityScore quality stability =
     pushFactor ''Topic Stability'' (invertedRisk stability) (15 / 100)
       (pushFactor ''Domain Metrics'' (invertedRisk quality) (25 / 100)
         (pushFactor ''Backlink Quality'' (invertedRisk averageQualityScore) (25 / 100)
           (pushFactor ''Spam Content'' (spamRisk maxSpamScore) (35 / 100) [])))"

text \<open>The penalty of the topic red flags, by their \<open>severity\<close> strings, capped at 30.\<close>

definition redFlagPenalty :: "string list \<Rightarrow> real" where
  "redFlagPenalty severities =
     (if length severities > 0
      then min 30 (foldl (\<lambda>sum sev. if sev = ''high'' then sum + 15
                                      else if sev = ''medium'' then sum + 8
                                      else sum + 3) 0 severities)
      else 0)"

text \<open>
  Lines 528 to 565 and 572. The score is a \<open>jsval\<close> where the source tests it with
  \<open>isFinite\<close>; \<open>validRiskScore\<close> is what line 634 returns as \<open>overallRiskScore\<close>.
\<close>

definition validRiskScore :: "jsval \<Rightarrow> jsval \<Rightarrow> jsval \<Rightarrow> jsval \<Rightarrow> string list \<Rightarrow> real" where
  "validRiskScore maxSpamScore averageQualityScore quality stability severities =
     (let fs = riskFactors maxSpamScore averageQualityScore quality stability;
          weighted = foldl (\<lambda>s f. s + factor_value f * factor_weight f) 0 fs;
          totalWeight = foldl (\<lambda>s f. s + factor_weight f) 0 fs;
          penalty = redFlagPenalty severities;
          sr = spamRisk maxSpamScore;
          raw = (if totalWeight > 0 then math_round (weighted / totalWeight + penalty)
                 else (case sr of Some s \<Rightarrow> math_round (s + penalty) | None \<Rightarrow> 0));
          capped = Number (min 100 (max 0 raw));
          overall = (if \<not> finite_number capped
                     then (case sr of
                             Some s \<Rightarrow> Number (min 100 (max 0 (math_round (s + penalty))))
                           | None \<Rightarrow> Number 50)
                     else capped)
      in (case overall of Number r \<Rightarrow> r | _ \<Rightarrow> 50))"

text \<open>\<open>risk !== null && risk >= limit\<close> and \<open>risk !== null && risk > limit\<close>.\<close>

definition risk_ge :: "real option \<Rightarrow> real \<Rightarrow> bool" where
  "risk_ge risk limit = (case risk of Some v \<Rightarrow> v \<ge> limit | None \<Rightarrow> False)"

definition risk_gt :: "real option \<Rightarrow> real \<Rightarrow> bool" where
  "risk_gt risk limit = (case risk of Some v \<Rightarrow> v > limit | None \<Rightarrow> False)"

text \<open>Lines 568 to 601: the chain of \<open>if\<close>/\<open>else if\<close>.\<close>

definition baseRecommendation :: "real option \<Rightarrow> real \<Rightarrow> real \<Rightarrow> recommendation" where
  "baseRecommendation sr penalty valid =
     (if risk_ge sr 80 then AVOID
      else if risk_ge sr 50 then AVOID
      else if penalty \<ge> 20 then AVOID
      else if valid \<ge> 70 then AVOID
      else if valid \<ge> 55 then CAUTION
      else if valid \<ge> 40 then REVIEW
      else if valid \<ge> 25 then REVIEW
      else BUY)"

text \<open>Lines 603 to 616: the two additional factors.\<close>

definition additionalFactor :: "real option \<Rightarrow> real \<Rightarrow> recommendation \<Rightarrow> recommendation" where
  "additionalFactor risk limit r =
     (if risk_gt risk limit
      then (if r = BUY then REVIEW else r)
      else r)"

record risk_assessment =
  overallRiskScore :: real
  riskLevel :: risk_level
  recommendation :: recommendation

definition riskAssessment :: "jsval \<Rightarrow> jsval \<Rightarrow> jsval \<Rightarrow> jsval \<Rightarrow> string list \<Rightarrow> risk_assessment" where
  "riskAssessment maxSpamScore averageQualityScore quality stability severities =
     (let valid = validRiskScore maxSpamScore averageQualityScore quality stability severities;
          rec0 = baseRecommendation (spamRisk maxSpamScore) (redFlagPenalty severities) valid;
          rec1 = additionalFactor (invertedRisk quality) 70 rec0;
          rec2 = additionalFactor (invertedRisk averageQualityScore) 60 rec1;
          level0 = (if valid \<ge> 70 \<or> rec2 = AVOID then HIGH
                    else if valid \<ge> 40 \<or> rec2 = CAUTION then MEDIUM
                    else LOW);
          level = (if rec2 = AVOID \<and> level0 = LOW then HIGH else level0)
      in \<lparr>overallRiskScore = valid, riskLevel = level, recommendation = rec2\<rparr>)"

section \<open>Archive client: \<open>WaybackClient.getSnapshots\<close> (topicAnalyzer.js, second module)\<close>

text \<open>A thrown \<open>Error\<close>: its \<open>name\<close> and its \<open>message\<close>.\<close>

record js_error =
  err_name :: string
  err_message :: string

definition new_Error :: "string \<Rightarrow> js_error" where
  "new_Error msg = \<lparr>err_name = ''Error'', err_message = msg\<rparr>"

text \<open>A number inside a template literal: its decimal digits.\<close>

function show_nat :: "nat \<Rightarrow> string" where
  "show_nat n = (if n < 10 then [char_of (48 + n)] else show_nat (n div 10) @ [char_of (48 + n mod 10)])"
  by pat_completeness auto
termination
  by (relation "measure (\<lambda>n. n)") auto

declare show_nat.simps [simp del]

record snapshot =
  timestamp :: string
  originalUrl :: string
  statusCode :: jsval

text \<open>
  \<open>parseInt(s, 10)\<close>: leading white space, an optional sign, then the longest run of
  digits; \<open>NaN\<close> when there is none.
\<close>

definition is_digit :: "char \<Rightarrow> bool" where
  "is_digit c = (48 \<le> (of_char c :: nat) \<and> (of_char c :: nat) \<le> 57)"

definition parseInt10 :: "string \<Rightarrow> jsval" where
  "parseInt10 s =
     (let t = dropWhile is_space s;
          neg = (case t of c # _ \<Rightarrow> c = CHR ''-'' | [] \<Rightarrow> False);
          signed = (case t of c # _ \<Rightarrow> c = CHR ''-'' \<or> c = CHR ''+'' | [] \<Rightarrow> False);
          ds = takeWhile is_digit (if signed then tl t else t);
          n = foldl (\<lambda>a c. 10 * a + (of_char c - 48)) (0 :: nat) ds
      in if ds = [] then NaN else Number (if neg then - real n else real n))"

text \<open>\<open>row[i] || ''\<close> on a row of strings: a missing cell reads as \<open>undefined\<close>.\<close>

definition cell :: "string list \<Rightarrow> nat \<Rightarrow> string" where
  "cell row i = (if i < length row then row ! i else [])"

definition row_to_snapshot :: "string list \<Rightarrow> snapshot" where
  "row_to_snapshot row =
     \<lparr>timestamp = cell row 0, originalUrl = cell row 1,
      statusCode = (if cell row 2 \<noteq> [] then parseInt10 (cell row 2) else Null)\<rparr>"

definition rows_to_snapshots :: "string list list \<Rightarrow> snapshot list" where
  "rows_to_snapshots data =
     (case data of
        [] \<Rightarrow> []
      | firstRow # rest \<Rightarrow>
          (let hasHeaders = (firstRow \<noteq> [] \<and> (hd firstRow = ''timestamp'' \<or> hd firstRow = ''Timestamp''));
               rows = (if hasHeaders then rest else data)
           in filter (\<lambda>sn. timestamp sn \<noteq> [] \<and> originalUrl sn \<noteq> []) (map row_to_snapshot rows)))"

text \<open>
  What one request to the capture index gives: \<open>fetch\<close> throws (an abort on the
  timer, a network error), or a response with its status and what \<open>response.json()\<close>
  gives. \<open>response.ok\<close> is the Fetch standard's: the status is in 200..299.
\<close>

datatype cdx_json = JsonThrows js_error | NotArray | Rows "string list list"

datatype cdx_reply = FetchThrows js_error | Reply nat cdx_json

definition response_ok :: "nat \<Rightarrow> bool" where
  "response_ok st = (200 \<le> st \<and> st \<le> 299)"

text \<open>The \<open>catch\<close> of lines 443 to 448, on what the \<open>try\<close> block threw.\<close>

definition rethrow :: "nat \<Rightarrow> js_error \<Rightarrow> js_error" where
  "rethrow timeout e =
     (if err_name e = ''AbortError'' \<or> str_includes (err_message e) ''timeout''
      then new_Error (''Request timeout after '' @ show_nat timeout @ ''ms'')
      else new_Error (''Failed to fetch snapshots: '' @ err_message e))"

definition rate_limit_error :: "nat \<Rightarrow> js_error" where
  "rate_limit_error maxRetries =
     new_Error (''CDX API rate limit exceeded after '' @ show_nat maxRetries @ '' retries. Please try again later.'')"

definition http_error :: "nat \<Rightarrow> js_error" where
  "http_error st = new_Error (''CDX API returned HTTP '' @ show_nat st)"

text \<open>
  \<open>getSnapshots\<close>: \<open>server k\<close> is the index's answer to the request made with
  \<open>retryCount = k\<close>. The result is the list of the waits (in ms) made before the
  retries, and the captures or the error thrown.
\<close>

function getSnapshots ::
    "nat \<Rightarrow> (nat \<Rightarrow> cdx_reply) \<Rightarrow> nat \<Rightarrow> nat \<Rightarrow> nat list \<times> (js_error + snapshot list)" where
  "getSnapshots timeout server retryCount maxRetries =
     (case server retryCount of
        FetchThrows e \<Rightarrow> ([], Inl (rethrow timeout e))
      | Reply st json \<Rightarrow>
          if st = 429 then
            (if retryCount < maxRetries then
               (let waitTime = 2 ^ retryCount * 2000;
                    again = getSnapshots timeout server (retryCount + 1) maxRetries
                in (waitTime # fst again,
                    case snd again of Inl e \<Rightarrow> Inl (rethrow timeout e) | Inr snaps \<Rightarrow> Inr snaps))
             else ([], Inl (rethrow timeout (rate_limit_error maxRetries))))
          else if \<not> response_ok st then ([], Inl (rethrow timeout (http_error st)))
          else (case json of
                  JsonThrows e \<Rightarrow> ([], Inl (rethrow timeout e))
                | NotArray \<Rightarrow> ([], Inr [])
                | Rows data \<Rightarrow> ([], Inr (rows_to_snapshots data))))"
  by pat_completeness auto
termination
  by (relation "measure (\<lambda>(timeout, server, retryCount, maxRetries). maxRetries - retryCount)") auto

declare getSnapshots.simps [simp del]

section \<open>Per-domain spam pipeline: \<open>analyzeDomainForSpam\<close>\<close>

datatype status =
  QUEUED | FETCHING_SNAPSHOTS | NO_SNAPSHOTS | UNAVAILABLE | ANALYZING
  | CLEAN | SUSPICIOUS | SPAM | COMPLETE

text \<open>
  \<open>analyzeHtmlForSpam\<close>: the text and meta tags come out of the HTML parser, which is
  outside this development; \<open>allTextOf\<close> maps the page to the combined text that is
  searched.
\<close>

record html_analysis =
  stopWordsCheck :: spam_result
  isSpam :: bool
  an_spamScore :: real

definition analyzeHtmlForSpam :: "(string \<Rightarrow> string) \<Rightarrow> string \<Rightarrow> string list \<Rightarrow> html_analysis" where
  "analyzeHtmlForSpam allTextOf html stopWords =
     (let chk = checkStopWords (allTextOf html) stopWords
      in \<lparr>stopWordsCheck = chk, isSpam = (found_count chk > 0), an_spamScore = score chk\<rparr>)"

record snapshot_error =
  se_timestamp :: string
  se_originalUrl :: string
  se_error :: string

text \<open>The variables of lines 158 to 165.\<close>

record spam_loop =
  spamSnapshots :: nat
  totalSpamScore :: real
  maxSpamScore :: real
  successfullyAnalyzed :: nat
  failedSnapshots :: nat
  allFoundStopWords :: "(string \<times> nat) list"
  firstSpamDate :: "string option"
  snapshotErrors :: "snapshot_error list"

definition spam_loop_init :: spam_loop where
  "spam_loop_init =
     \<lparr>spamSnapshots = 0, totalSpamScore = 0, maxSpamScore = 0, successfullyAnalyzed = 0,
      failedSnapshots = 0, allFoundStopWords = [], firstSpamDate = None, snapshotErrors = []\<rparr>"

text \<open>A \<open>Map\<close> keeps its keys in the order of their first insertion.\<close>

definition map_get :: "(string \<times> nat) list \<Rightarrow> string \<Rightarrow> nat option" where
  "map_get m k = map_of m k"

definition map_set :: "(string \<times> nat) list \<Rightarrow> string \<Rightarrow> nat \<Rightarrow> (string \<times> nat) list" where
  "map_set m k v =
     (if k \<in> fst ` set m then map (\<lambda>(k', v'). if k' = k then (k', v) else (k', v')) m
      else m @ [(k, v)])"

definition add_finding :: "(string \<times> nat) list \<Rightarrow> spam_finding \<Rightarrow> (string \<times> nat) list" where
  "add_finding m item =
     (let current = (case map_get m (word item) of Some c \<Rightarrow> c | None \<Rightarrow> 0)
      in map_set m (word item) (current + count item))"

text \<open>\<open>error.message || String(error)\<close>.\<close>

definition errorMsg :: "js_error \<Rightarrow> string" where
  "errorMsg e = (if err_message e \<noteq> [] then err_message e else err_name e)"

text \<open>
  One turn of the loop of lines 168 to 231 on capture \<open>sn\<close>: \<open>fetched\<close> is what
  \<open>getSnapshotHtml\<close> gave for it, the error it threw or the HTML of the page.
\<close>

definition spam_loop_step ::
    "(string \<Rightarrow> string) \<Rightarrow> string list \<Rightarrow> spam_loop \<Rightarrow> snapshot \<times> (js_error + string) \<Rightarrow> spam_loop" where
  "spam_loop_step allTextOf stopWords st p =
     (let sn = fst p;
          caught = (\<lambda>e. st\<lparr>failedSnapshots := failedSnapshots st + 1,
                           snapshotErrors := snapshotErrors st @
                             [\<lparr>se_timestamp = timestamp sn, se_originalUrl = originalUrl sn,
                               se_error = errorMsg e\<rparr>]\<rparr>)
      in case snd p of
           Inl e \<Rightarrow> caught e
         | Inr html \<Rightarrow>
             if html = [] then caught (new_Error ''Empty HTML result from snapshot'')
             else
               (let analysis = analyzeHtmlForSpam allTextOf html stopWords;
                    st1 = st\<lparr>successfullyAnalyzed := successfullyAnalyzed st + 1\<rparr>;
                    st2 = (if an_spamScore analysis > maxSpamScore st1
                           then st1\<lparr>maxSpamScore := an_spamScore analysis\<rparr> else st1)
                in if isSpam analysis then
                     st2\<lparr>spamSnapshots := spamSnapshots st2 + 1,
                         totalSpamScore := totalSpamScore st2 + an_spamScore analysis,
                         allFoundStopWords :=
                           foldl add_finding (allFoundStopWords st2) (found (stopWordsCheck analysis)),
                         firstSpamDate :=
                           (if firstSpamDate st2 = None \<or> firstSpamDate st2 = Some []
                            then Some (timestamp sn) else firstSpamDate st2)\<rparr>
                   else st2))"

record spam_details =
  d_failedSnapshots :: nat
  d_spamSnapshots :: nat
  d_maxSpamScore :: real
  d_avgSpamScore :: real
  d_spamDetected :: bool
  d_totalStopWordsFound :: nat
  d_stopWordsFound :: "(string \<times> nat) list"
  d_firstSpamDate :: "string option"
  d_snapshotErrors :: "snapshot_error list"

text \<open>
  The object returned. The early returns carry the first five properties only, so the
  others are in \<open>sa_details\<close>. The \<open>lastMessage\<close> text is left out, and so are the
  calls of the two callbacks, which are taken not to throw.
\<close>

record spam_analysis =
  sa_domain :: string
  sa_status :: status
  sa_snapshotsFound :: nat
  sa_snapshotsAnalyzed :: nat
  sa_error :: "string option"
  sa_details :: "spam_details option"

definition round1 :: "real \<Rightarrow> real" where
  "round1 x = math_round (x * 10) / 10"

definition finalStatus :: "spam_loop \<Rightarrow> status" where
  "finalStatus st =
     (if successfullyAnalyzed st = 0 then UNAVAILABLE
      else if maxSpamScore st \<ge> 8 then SPAM
      else if maxSpamScore st \<ge> 5 then SUSPICIOUS
      else CLEAN)"

text \<open>
  \<open>analyzeDomainForSpam\<close>: \<open>listing\<close> is what \<open>getSnapshots\<close> gave, \<open>fetched i\<close>
  what \<open>getSnapshotHtml(snapshots[i])\<close> gave in turn \<open>i\<close> of the loop.
\<close>

definition analyzeDomainForSpam ::
    "(string \<Rightarrow> string) \<Rightarrow> string \<Rightarrow> string list \<Rightarrow> js_error + snapshot list
      \<Rightarrow> (nat \<Rightarrow> js_error + string) \<Rightarrow> spam_analysis" where
  "analyzeDomainForSpam allTextOf domain stopWords listing fetched =
     (case listing of
        Inl e \<Rightarrow>
          \<lparr>sa_domain = domain, sa_status = UNAVAILABLE, sa_snapshotsFound = 0,
           sa_snapshotsAnalyzed = 0, sa_error = Some (errorMsg e), sa_details = None\<rparr>
      | Inr snapshots \<Rightarrow>
          if length snapshots = 0 then
            \<lparr>sa_domain = domain, sa_status = NO_SNAPSHOTS, sa_snapshotsFound = 0,
             sa_snapshotsAnalyzed = 0, sa_error = None, sa_details = None\<rparr>
          else
            (let st = foldl (spam_loop_step allTextOf stopWords) spam_loop_init
                        (zip snapshots (map fetched [0..<length snapshots]));
                 avgSpamScore = (if spamSnapshots st > 0
                                 then totalSpamScore st / real (spamSnapshots st) else 0);
                 stopWordsFound = sort_key (\<lambda>p. - int (snd p)) (allFoundStopWords st)
             in \<lparr>sa_domain = domain, sa_status = finalStatus st,
                 sa_snapshotsFound = length snapshots,
                 sa_snapshotsAnalyzed = successfullyAnalyzed st,
                 sa_error =
                   (if length (snapshotErrors st) > 0 \<and> successfullyAnalyzed st = 0
                    then Some (''Failed to analyze any snapshots. '' @ show_nat (failedSnapshots st)
                               @ '' errors occurred.'')
                    else None),
                 sa_details = Some
                   \<lparr>d_failedSnapshots = failedSnapshots st, d_spamSnapshots = spamSnapshots st,
                    d_maxSpamScore = round1 (maxSpamScore st),
                    d_avgSpamScore = round1 avgSpamScore,
                    d_spamDetected = (spamSnapshots st > 0),
                    d_totalStopWordsFound = length (allFoundStopWords st),
                    d_stopWordsFound = stopWordsFound,
                    d_firstSpamDate = firstSpamDate st,
                    d_snapshotErrors = snapshotErrors st\<rparr>\<rparr>))"

section \<open>Topic-stability analyzer (topicAnalyzer.js)\<close>

record heading =
  h_level :: string
  h_text :: string

record topics =
  title :: string
  headings :: "heading list"
  metaDescription :: string
  metaKeywords :: string
  ogTitle :: string
  ogDescription :: string
  contentWords :: "string list"

text \<open>
  \<open>s.split(/\s+/)\<close>: the pieces between the runs of white space, an empty piece at an
  end where the string starts or ends with white space.
\<close>

function split_ws_acc :: "string \<Rightarrow> string \<Rightarrow> string list" where
  "split_ws_acc cur [] = [rev cur]"
| "split_ws_acc cur (c # s) =
     (if is_space c then rev cur # split_ws_acc [] (dropWhile is_space s)
      else split_ws_acc (c # cur) s)"
  by pat_completeness auto
termination
  by (relation "measure (\<lambda>(cur, s). length s)") (auto simp: le_imp_less_Suc length_dropWhile_le)

definition split_ws :: "string \<Rightarrow> string list" where
  "split_ws s = split_ws_acc [] s"

text \<open>The Jaccard index of two \<open>Set\<close>s, times 100.\<close>

definition jaccard100 :: "string set \<Rightarrow> string set \<Rightarrow> real" where
  "jaccard100 A B =
     (if card (A \<union> B) > 0 then real (card (A \<inter> B)) / real (card (A \<union> B)) * 100 else 0)"

definition calculateTextSimilarity :: "string \<Rightarrow> string \<Rightarrow> real" where
  "calculateTextSimilarity text1 text2 =
     jaccard100 (set (filter (\<lambda>w. length w > 2) (split_ws (toLowerCase text1))))
                (set (filter (\<lambda>w. length w > 2) (split_ws (toLowerCase text2))))"

definition calculateArraySimilarity :: "string list \<Rightarrow> string list \<Rightarrow> real" where
  "calculateArraySimilarity arr1 arr2 = jaccard100 (set arr1) (set arr2)"

text \<open>
  \<open>extractKeywords(words, topN).map(k => k.word)\<close> is the parameter \<open>kw\<close> below:
  which words it keeps among those of equal frequency depends on the enumeration order
  of the properties of a JavaScript object, which is not modelled; everything proved
  holds for every such function.
\<close>

definition calculateTopicSimilarity ::
    "(string list \<Rightarrow> nat \<Rightarrow> string list) \<Rightarrow> topics \<Rightarrow> topics \<Rightarrow> real" where
  "calculateTopicSimilarity kw topics1 topics2 =
     (let (s1, f1) = (if title topics1 \<noteq> [] \<and> title topics2 \<noteq> []
                      then (calculateTextSimilarity (title topics1) (title topics2), 1 :: nat)
                      else (0, 0));
          (s2, f2) = (if length (headings topics1) > 0 \<and> length (headings topics2) > 0
                      then (s1 + calculateArraySimilarity
                                   (map (\<lambda>h. toLowerCase (h_text h)) (headings topics1))
                                   (map (\<lambda>h. toLowerCase (h_text h)) (headings topics2)), f1 + 1)
                      else (s1, f1));
          (s3, f3) = (if metaDescription topics1 \<noteq> [] \<and> metaDescription topics2 \<noteq> []
                      then (s2 + calculateTextSimilarity (metaDescription topics1)
                                   (metaDescription topics2), f2 + 1)
                      else (s2, f2));
          (s4, f4) = (if length (contentWords topics1) > 0 \<and> length (contentWords topics2) > 0
                      then (s3 + calculateArraySimilarity (kw (contentWords topics1) 20)
                                   (kw (contentWords topics2) 20), f3 + 1)
                      else (s3, f3))
      in if f4 > 0 then math_round (s4 / real f4) else 0)"

text \<open>A red flag; its \<open>message\<close> text is left out.\<close>

record red_flag =
  flag_type :: string
  severity :: string
  flag_keyword :: "string option"
  flag_similarity :: "real option"
  flag_shifts :: "nat option"

definition flag :: "string \<Rightarrow> string \<Rightarrow> red_flag" where
  "flag ty sev = \<lparr>flag_type = ty, severity = sev, flag_keyword = None,
                   flag_similarity = None, flag_shifts = None\<rparr>"

definition suspiciousKeywords :: "string list" where
  "suspiciousKeywords =
     [''casino'', ''poker'', ''viagra'', ''loan'', ''payday'', ''free money'', ''get rich'']"

text \<open>\<open>xs.join(' ')\<close>.\<close>

fun join_space :: "string list \<Rightarrow> string" where
  "join_space [] = []"
| "join_space [x] = x"
| "join_space (x # y # ys) = x @ '' '' @ join_space (y # ys)"

text \<open>The loop of flag 4: the adjacent pairs of the history with a similarity below 40.\<close>

fun count_shifts :: "(string list \<Rightarrow> nat \<Rightarrow> string list) \<Rightarrow> topics list \<Rightarrow> nat \<Rightarrow> nat" where
  "count_shifts kw (a # b # rest) shifts =
     count_shifts kw (b # rest)
       (if calculateTopicSimilarity kw a b < 40 then shifts + 1 else shifts)"
| "count_shifts kw _ shifts = shifts"

definition detectRedFlags ::
    "(string list \<Rightarrow> nat \<Rightarrow> string list) \<Rightarrow> topics \<Rightarrow> topics list \<Rightarrow> red_flag list" where
  "detectRedFlags kw tp history =
     (let flags1 = (if title tp = [] \<or> length (title tp) < 10
                    then [flag ''missing_title'' ''medium''] else []);
          allText = toLowerCase (title tp @ '' '' @ metaDescription tp @ '' ''
                                 @ join_space (map h_text (headings tp)));
          flags2 = flags1 @
                   map (\<lambda>keyword. (flag ''suspicious_keyword'' ''high'')\<lparr>flag_keyword := Some keyword\<rparr>)
                       (filter (\<lambda>keyword. str_includes allText keyword) suspiciousKeywords);
          flags3 = (if length history > 0
                    then (let recentSimilarity = calculateTopicSimilarity kw tp (last history)
                          in if recentSimilarity < 30
                             then flags2 @ [(flag ''major_topic_shift'' ''high'')
                                              \<lparr>flag_similarity := Some recentSimilarity\<rparr>]
                             else flags2)
                    else flags2);
          flags4 = (if length history > 2
                    then (let shifts = count_shifts kw history 0
                          in if real shifts > real (length history) / 2
                             then flags3 @ [(flag ''unstable_topics'' ''high'')\<lparr>flag_shifts := Some shifts\<rparr>]
                             else flags3)
                    else flags3)
      in if metaDescription tp = [] \<or> length (metaDescription tp) < 50
         then flags4 @ [flag ''missing_meta'' ''low''] else flags4)"

text \<open>
  The loop of lines 278 to 285 over the adjacent pairs, on \<open>(totalSimilarity, comparisons)\<close>.
\<close>

fun similarity_loop ::
    "(string list \<Rightarrow> nat \<Rightarrow> string list) \<Rightarrow> topics list \<Rightarrow> real \<times> nat \<Rightarrow> real \<times> nat" where
  "similarity_loop kw (a # b # rest) (totalSimilarity, comparisons) =
     similarity_loop kw (b # rest)
       (totalSimilarity + calculateTopicSimilarity kw a b, comparisons + 1)"
| "similarity_loop kw _ acc = acc"

record topic_result =
  tr_snapshotsAnalyzed :: nat
  stabilityScore :: jsval
  redFlags :: "red_flag list"
  mainTopics :: "string list"
  topicHistory :: "(string \<times> string \<times> string list) list"

text \<open>
  \<open>analyzeTopicStability\<close>: a capture is its timestamp and its \<open>html\<close> (the empty
  string is falsy, as a missing one). \<open>extractTopics\<close> runs the HTML parser and is a
  parameter.
\<close>

definition analyzeTopicStability ::
    "(string \<Rightarrow> topics) \<Rightarrow> (string list \<Rightarrow> nat \<Rightarrow> string list) \<Rightarrow> (string \<times> string) list
      \<Rightarrow> topic_result" where
  "analyzeTopicStability extractTopics kw snapshots =
     (let topicAnalyses = map (\<lambda>sn. (fst sn, extractTopics (snd sn)))
                              (filter (\<lambda>sn. snd sn \<noteq> []) snapshots)
      in if length topicAnalyses = 0 then
           \<lparr>tr_snapshotsAnalyzed = 0, stabilityScore = Null, redFlags = [], mainTopics = [],
            topicHistory = []\<rparr>
         else
           (let history = map snd topicAnalyses;
                (totalSimilarity, comparisons) = similarity_loop kw history (0, 0);
                stability = (if comparisons > 0 then math_round (totalSimilarity / real comparisons)
                             else 100);
                latestTopics = last history
            in \<lparr>tr_snapshotsAnalyzed = length topicAnalyses, stabilityScore = Number stability,
                redFlags = detectRedFlags kw latestTopics (butlast history),
                mainTopics = kw (contentWords latestTopics) 10,
                topicHistory = map (\<lambda>ta. (fst ta, title (snd ta), kw (contentWords (snd ta)) 5))
                                   topicAnalyses\<rparr>))"

section \<open>Batch operations: restoring the input order\<close>

text \<open>\<open>domains.map(d => d.trim()).filter(d => d.length > 0)\<close>.\<close>

definition domainList :: "string list \<Rightarrow> string list" where
  "domainList domains = filter (\<lambda>d. length d > 0) (map trim domains)"

text \<open>
  Lines 393 to 404 of \<open>analyzeDomainsForSpam\<close>: \<open>results\<close> is the array the
  per-domain analyses have pushed their results to, in the order they completed.
\<close>

definition spam_placeholder :: "string \<Rightarrow> spam_analysis" where
  "spam_placeholder domain =
     \<lparr>sa_domain = domain, sa_status = UNAVAILABLE, sa_snapshotsFound = 0,
      sa_snapshotsAnalyzed = 0, sa_error = Some ''Analysis not completed'', sa_details = None\<rparr>"

definition sortedResults_spam :: "string list \<Rightarrow> spam_analysis list \<Rightarrow> spam_analysis list" where
  "sortedResults_spam domains results =
     map (\<lambda>domain. case find (\<lambda>r. sa_domain r = domain) results of
                      Some r \<Rightarrow> r
                    | None \<Rightarrow> spam_placeholder domain)
         (domainList domains)"

text \<open>
  The result of \<open>analyzeDomainComplete\<close>: the early returns carry the domain, the
  status and the error; a \<open>COMPLETE\<close> one the analyses and the assessment.
\<close>

record complete_result =
  cr_domain :: string
  cr_status :: status
  cr_error :: "string option"
  cr_spamAnalysis :: "spam_analysis option"
  cr_topicAnalysis :: "topic_result option"
  cr_metrics :: "domain_metrics option"
  cr_assessment :: "risk_assessment option"

text \<open>\<open>spamAnalysis.maxSpamScore\<close>, \<open>undefined\<close> on the early returns.\<close>

definition sa_maxSpamScore :: "spam_analysis \<Rightarrow> jsval" where
  "sa_maxSpamScore sa = (case sa_details sa of Some d \<Rightarrow> Number (d_maxSpamScore d) | None \<Rightarrow> Undefined)"

text \<open>
  Lines 492 to 678 of \<open>analyzeDomainComplete\<close>, from the results of the four analyses
  (of the backlink analysis, its \<open>averageQualityScore\<close>).
\<close>

definition completeResult ::
    "string \<Rightarrow> spam_analysis \<Rightarrow> jsval \<Rightarrow> topic_result \<Rightarrow> domain_metrics \<Rightarrow> complete_result" where
  "completeResult domain spamAnalysis averageQualityScore topicAnalysis metrics =
     \<lparr>cr_domain = domain, cr_status = COMPLETE, cr_error = None,
      cr_spamAnalysis = Some spamAnalysis, cr_topicAnalysis = Some topicAnalysis,
      cr_metrics = Some metrics,
      cr_assessment = Some (riskAssessment (sa_maxSpamScore spamAnalysis) averageQualityScore
                              (overallQualityScore metrics) (stabilityScore topicAnalysis)
                              (map severity (redFlags topicAnalysis)))\<rparr>"

text \<open>Lines 762 to 769 of \<open>analyzeDomainsComplete\<close>.\<close>

definition complete_placeholder :: "string \<Rightarrow> complete_result" where
  "complete_placeholder domain =
     \<lparr>cr_domain = domain, cr_status = UNAVAILABLE, cr_error = Some ''Analysis not completed'',
      cr_spamAnalysis = None, cr_topicAnalysis = None, cr_metrics = None, cr_assessment = None\<rparr>"

definition sortedResults_complete :: "string list \<Rightarrow> complete_result list \<Rightarrow> complete_result list" where
  "sortedResults_complete domains results =
     map (\<lambda>domain. case find (\<lambda>r. cr_domain r = domain) results of
                      Some r \<Rightarrow> r
                    | None \<Rightarrow> complete_placeholder domain)
         (domainList domains)"

section \<open>The specification's wording of the results\<close>

text \<open>
  The stop words that match a text, as the specification counts them: the distinct
  trimmed, lower-cased, non-empty stop words that occur in the lower-cased text; and
  the total of their occurrences.
\<close>

definition matched_words :: "string \<Rightarrow> string list \<Rightarrow> string set" where
  "matched_words text stopWords =
     {w \<in> (\<lambda>s. trim (toLowerCase s)) ` set stopWords. w \<noteq> [] \<and> str_includes (toLowerCase text) w}"

definition total_occurrences :: "string \<Rightarrow> string list \<Rightarrow> nat" where
  "total_occurrences text stopWords =
     (\<Sum>w \<in> matched_words text stopWords. match_count w (toLowerCase text))"

text \<open>
  The score of the specification: 0 without a match, else \<open>min(10, uniqueMatches * 2)\<close>,
  raised by 2 (capped at 10) when the total exceeds 5, and 10 when it exceeds 10.
\<close>

definition spec_spam_score :: "nat \<Rightarrow> nat \<Rightarrow> real" where
  "spec_spam_score uniqueMatches totalOccurrences =
     (if uniqueMatches = 0 then 0
      else if totalOccurrences > 10 then 10
      else if totalOccurrences > 5 then min 10 (min 10 (real uniqueMatches * 2) + 2)
      else min 10 (real uniqueMatches * 2))"

text \<open>
  The stability score of the specification: the rounded mean of the similarities of
  the adjacent pairs, 100 for a single capture, \<open>null\<close> for none.
\<close>

definition adjacent_pairs :: "'a list \<Rightarrow> ('a \<times> 'a) list" where
  "adjacent_pairs xs = zip xs (tl xs)"

definition spec_stability :: "(string list \<Rightarrow> nat \<Rightarrow> string list) \<Rightarrow> topics list \<Rightarrow> jsval" where
  "spec_stability kw ts =
     (if length ts = 0 then Null
      else if length ts = 1 then Number 100
      else Number (math_round
             (sum_list (map (\<lambda>p. calculateTopicSimilarity kw (fst p) (snd p)) (adjacent_pairs ts))
              / real (length (adjacent_pairs ts)))))"

text \<open>
  The captures of a domain's run, as the specification counts them: a capture is
  analysed when its fetch returned a non-empty page; otherwise it is skipped, with a
  note of the error.
\<close>

definition capture_ok :: "js_error + string \<Rightarrow> bool" where
  "capture_ok f = (case f of Inr html \<Rightarrow> html \<noteq> [] | Inl e \<Rightarrow> False)"

definition captures :: "snapshot list \<Rightarrow> (nat \<Rightarrow> js_error + string) \<Rightarrow> (snapshot \<times> (js_error + string)) list" where
  "captures snapshots fetched = zip snapshots (map fetched [0..<length snapshots])"

definition analysed :: "(snapshot \<times> (js_error + string)) list \<Rightarrow> (snapshot \<times> (js_error + string)) list" where
  "analysed ps = filter (\<lambda>p. capture_ok (snd p)) ps"

definition skipped :: "(snapshot \<times> (js_error + string)) list \<Rightarrow> (snapshot \<times> (js_error + string)) list" where
  "skipped ps = filter (\<lambda>p. \<not> capture_ok (snd p)) ps"

definition error_note :: "snapshot \<times> (js_error + string) \<Rightarrow> snapshot_error" where
  "error_note p =
     \<lparr>se_timestamp = timestamp (fst p), se_originalUrl = originalUrl (fst p),
      se_error = (case snd p of Inl e \<Rightarrow> errorMsg e | Inr html \<Rightarrow> ''Empty HTML result from snapshot'')\<rparr>"

definition capture_score :: "(string \<Rightarrow> string) \<Rightarrow> string list \<Rightarrow> snapshot \<times> (js_error + string) \<Rightarrow> real" where
  "capture_score allTextOf stopWords p =
     (case snd p of Inr html \<Rightarrow> score (checkStopWords (allTextOf html) stopWords) | Inl e \<Rightarrow> 0)"

definition max_score :: "(string \<Rightarrow> string) \<Rightarrow> string list \<Rightarrow> (snapshot \<times> (js_error + string)) list \<Rightarrow> real" where
  "max_score allTextOf stopWords ps = Max (set (0 # map (capture_score allTextOf stopWords) (analysed ps)))"

definition status_by_score :: "real \<Rightarrow> status" where
  "status_by_score m = (if m < 5 then CLEAN else if m < 8 then SUSPICIOUS else SPAM)"

text \<open>
  A comparison factor is computable when both captures have the data for it; here none
  of the four is.
\<close>

definition no_factor_computable :: "topics \<Rightarrow> topics \<Rightarrow> bool" where
  "no_factor_computable t1 t2 =
     (\<not> (title t1 \<noteq> [] \<and> title t2 \<noteq> [])
      \<and> \<not> (headings t1 \<noteq> [] \<and> headings t2 \<noteq> [])
      \<and> \<not> (metaDescription t1 \<noteq> [] \<and> metaDescription t2 \<noteq> [])
      \<and> \<not> (contentWords t1 \<noteq> [] \<and> contentWords t2 \<noteq> []))"

text \<open>The topics of the captures that have HTML, in the order of the captures.\<close>

definition topics_with_html :: "(string \<Rightarrow> topics) \<Rightarrow> (string \<times> string) list \<Rightarrow> topics list" where
  "topics_with_html extractTopics snapshots =
     map (\<lambda>sn. extractTopics (snd sn)) (filter (\<lambda>sn. snd sn \<noteq> []) snapshots)"

text \<open>
  The chronological order of captures: by their timestamps, which are strings of 14
  digits, read as numbers; captures of equal timestamp keep their order.
\<close>

definition timestamp_value :: "string \<Rightarrow> nat" where
  "timestamp_value ts = foldl (\<lambda>a c. 10 * a + (of_char c - 48)) 0 ts"

definition chronological :: "(string \<times> string) list \<Rightarrow> (string \<times> string) list" where
  "chronological snapshots = sort_key (\<lambda>sn. timestamp_value (fst sn)) snapshots"

section \<open>Metrics aggregator: the quality score when the rank lookup fails\<close>

text \<open>
  When the rank lookup succeeds the score is the rounded mean: a rank of 5 (scaled to
  10), an authority of 45 and a trust flow of 20 give 25; and a rank that the lookup
  reports as \<open>null\<close> is skipped, the mean of 45 and 20 being 33.
\<close>

lemma quality_score_when_obtained:
  "overallQualityScore (getDomainMetrics (Some \<lparr>opr_domainRating = Number 5, opr_rankAbsolute = Null\<rparr>)
      (Some 45) (Some \<lparr>tf_trustFlow = 20, tf_citationFlow = 18\<rparr>)) = Number 25"
  "overallQualityScore (getDomainMetrics (Some \<lparr>opr_domainRating = Null, opr_rankAbsolute = Null\<rparr>)
      (Some 45) (Some \<lparr>tf_trustFlow = 20, tf_citationFlow = 18\<rparr>)) = Number 33"
  by (simp_all add: getDomainMetrics_def js_add_def js_min_def js_mul_def js_div_def Let_def
      math_round_def)

text \<open>
  C1. The claim: \<open>overallQualityScore\<close> is the mean of the sub-metrics that were
  obtained, a failed lookup being skipped, so a number in [0,100] also when the
  domain-rank lookup fails. The code does not do this: after a failed rank lookup
  \<open>metrics.domainRating\<close> is \<open>undefined\<close>, the guard \<open>!== null\<close> lets it through,
  and the score is \<open>NaN\<close> whatever the two other lookups gave.
\<close>

theorem failed_rank_lookup_gives_NaN:
  "overallQualityScore (getDomainMetrics (getOpenPageRankMetrics OprFailed) daMetrics tfMetrics) = NaN"
  by (cases daMetrics; cases tfMetrics)
     (simp_all add: getDomainMetrics_def js_add_def js_min_def js_mul_def js_div_def Let_def)

section \<open>Risk aggregator: score, level and recommendation\<close>

lemma redFlagPenalty_bounds: "0 \<le> redFlagPenalty sev \<and> redFlagPenalty sev \<le> 30"
proof -
  have "0 \<le> a \<Longrightarrow> 0 \<le> foldl (\<lambda>sum s. if s = ''high'' then sum + 15
        else if s = ''medium'' then sum + 8 else sum + 3) (a::real) sev" for a
    by (induction sev arbitrary: a) auto
  then show ?thesis by (auto simp: redFlagPenalty_def)
qed

lemma validRiskScore_bounds:
  "0 \<le> validRiskScore ms aq q st sev \<and> validRiskScore ms aq q st sev \<le> 100"
  by (simp add: validRiskScore_def Let_def)

text \<open>
  C2, as stated, fails: with spam risk 0, no red flag and an overall risk score of 20,
  a domain whose metrics risk is 80 is recommended REVIEW, not BUY.
\<close>

theorem buy_overridden_counterexample:
  "spamRisk (Number 0) = Some 0 \<and> redFlagPenalty [] = 0
   \<and> overallRiskScore (riskAssessment (Number 0) (Number 100) (Number 20) (Number 100) []) = 20
   \<and> recommendation (riskAssessment (Number 0) (Number 100) (Number 20) (Number 100) []) = REVIEW"
  by (simp add: riskAssessment_def validRiskScore_def riskFactors_def pushFactor_def spamRisk_def
      invertedRisk_def redFlagPenalty_def baseRecommendation_def additionalFactor_def risk_ge_def
      risk_gt_def math_round_def Let_def)

text \<open>
  C2, amended. The recommendation follows the precedence of the claim down to REVIEW;
  where the chain would end in BUY, a metrics risk above 70 or a backlink risk above 60
  makes it REVIEW. So an analysis with spam risk below 50 (or none), red-flag penalty
  below 20 and overall risk score below 25 is recommended BUY when moreover the metrics
  risk is at most 70 and the backlink risk at most 60 (or they are absent).
\<close>

theorem recommendation_precedence:
  "recommendation (riskAssessment ms aq q st sev) =
     (if risk_ge (spamRisk ms) 80 then AVOID
      else if risk_ge (spamRisk ms) 50 then AVOID
      else if redFlagPenalty sev \<ge> 20 then AVOID
      else if overallRiskScore (riskAssessment ms aq q st sev) \<ge> 70 then AVOID
      else if overallRiskScore (riskAssessment ms aq q st sev) \<ge> 55 then CAUTION
      else if overallRiskScore (riskAssessment ms aq q st sev) \<ge> 40 then REVIEW
      else if overallRiskScore (riskAssessment ms aq q st sev) \<ge> 25 then REVIEW
      else if risk_gt (invertedRisk q) 70 \<or> risk_gt (invertedRisk aq) 60 then REVIEW
      else BUY)
   \<and> (\<not> risk_ge (spamRisk ms) 50 \<and> redFlagPenalty sev < 20
        \<and> overallRiskScore (riskAssessment ms aq q st sev) < 25
        \<and> \<not> risk_gt (invertedRisk q) 70 \<and> \<not> risk_gt (invertedRisk aq) 60
      \<longrightarrow> recommendation (riskAssessment ms aq q st sev) = BUY)"
  by (auto simp: riskAssessment_def baseRecommendation_def additionalFactor_def Let_def risk_ge_def
      split: option.splits)

theorem recommendation_precedence_witness:
  "\<not> risk_ge (spamRisk (Number 1)) 50 \<and> redFlagPenalty [''low''] < 20
   \<and> overallRiskScore (riskAssessment (Number 1) (Number 90) (Number 60) (Number 100) [''low'']) < 25
   \<and> \<not> risk_gt (invertedRisk (Number 60)) 70 \<and> \<not> risk_gt (invertedRisk (Number 90)) 60
   \<and> recommendation (riskAssessment (Number 1) (Number 90) (Number 60) (Number 100) [''low'']) = BUY"
proof -
  have a: "\<not> risk_ge (spamRisk (Number 1)) 50" "redFlagPenalty [''low''] < 20"
    "\<not> risk_gt (invertedRisk (Number 60)) 70" "\<not> risk_gt (invertedRisk (Number 90)) 60"
    by (simp_all add: risk_ge_def risk_gt_def spamRisk_def invertedRisk_def redFlagPenalty_def)
  have b: "overallRiskScore (riskAssessment (Number 1) (Number 90) (Number 60) (Number 100) [''low'']) < 25"
    by (simp add: riskAssessment_def validRiskScore_def riskFactors_def pushFactor_def spamRisk_def
        invertedRisk_def redFlagPenalty_def math_round_def Let_def)
  from a b recommendation_precedence [of "Number 1" "Number 90" "Number 60" "Number 100" "[''low'']"]
  show ?thesis by blast
qed

text \<open>
  C3. Whatever the four metrics and the red flags are, the overall risk score returned
  lies in [0,100], and a recommendation AVOID comes with the risk level HIGH.
\<close>

theorem risk_score_bounded_avoid_high:
  "0 \<le> overallRiskScore (riskAssessment ms aq q st sev)
   \<and> overallRiskScore (riskAssessment ms aq q st sev) \<le> 100
   \<and> (recommendation (riskAssessment ms aq q st sev) = AVOID
        \<longrightarrow> riskLevel (riskAssessment ms aq q st sev) = HIGH)"
  using validRiskScore_bounds [of ms aq q st sev]
  by (simp add: riskAssessment_def Let_def)

text \<open>
  At a spam score of 5 and no other risk the score is 18, which alone would be LOW;
  the recommendation is AVOID and the level HIGH.
\<close>

theorem risk_score_bounded_avoid_high_witness:
  "recommendation (riskAssessment (Number 5) (Number 100) (Number 100) (Number 100) []) = AVOID
   \<and> overallRiskScore (riskAssessment (Number 5) (Number 100) (Number 100) (Number 100) []) = 18
   \<and> riskLevel (riskAssessment (Number 5) (Number 100) (Number 100) (Number 100) []) = HIGH"
proof -
  have a: "recommendation (riskAssessment (Number 5) (Number 100) (Number 100) (Number 100) []) = AVOID"
    by (simp add: riskAssessment_def spamRisk_def baseRecommendation_def additionalFactor_def
        risk_ge_def risk_gt_def invertedRisk_def Let_def)
  have b: "overallRiskScore (riskAssessment (Number 5) (Number 100) (Number 100) (Number 100) []) = 18"
    by (simp add: riskAssessment_def validRiskScore_def riskFactors_def pushFactor_def spamRisk_def
      invertedRisk_def redFlagPenalty_def math_round_def Let_def)
  from a b risk_score_bounded_avoid_high [of "Number 5" "Number 100" "Number 100" "Number 100" "[]"]
  show ?thesis by simp
qed

section \<open>Spam scorer: occurrences in longer texts\<close>

lemma startsWith_iff: "startsWith s w \<longleftrightarrow> (\<exists>q. s = w @ q)"
  by (induction s w rule: startsWith.induct) auto

lemma str_includes_iff: "str_includes s w \<longleftrightarrow> (\<exists>p q. s = p @ w @ q)"
proof (induction s)
  case Nil
  then show ?case by simp
next
  case (Cons c s)
  show ?case
  proof
    assume "str_includes (c # s) w"
    then consider "startsWith (c # s) w" | "str_includes s w" by auto
    then show "\<exists>p q. c # s = p @ w @ q"
    proof cases
      case 1
      then obtain q where "c # s = w @ q" by (auto simp: startsWith_iff)
      then have "c # s = [] @ w @ q" by simp
      then show ?thesis by blast
    next
      case 2
      then obtain p q where "s = p @ w @ q" using Cons.IH by blast
      then have "c # s = (c # p) @ w @ q" by simp
      then show ?thesis by blast
    qed
  next
    assume "\<exists>p q. c # s = p @ w @ q"
    then obtain p q where pq: "c # s = p @ w @ q" by blast
    show "str_includes (c # s) w"
    proof (cases p)
      case Nil
      with pq have "startsWith (c # s) w" by (auto simp: startsWith_iff)
      then show ?thesis by simp
    next
      case (Cons d p')
      with pq have "s = p' @ w @ q" by simp
      then have "str_includes s w" using Cons.IH by blast
      then show ?thesis by simp
    qed
  qed
qed

lemma str_includes_extend: "str_includes s w \<Longrightarrow> str_includes (pre @ s @ post) w"
proof -
  assume "str_includes s w"
  then obtain p q where "s = p @ w @ q" by (auto simp: str_includes_iff)
  then have "pre @ s @ post = (pre @ p) @ w @ (q @ post)" by simp
  then show ?thesis unfolding str_includes_iff by blast
qed

lemma startsWith_length: "startsWith s w \<Longrightarrow> length w \<le> length s"
  by (auto simp: startsWith_iff)

lemma startsWith_append: "startsWith s w \<Longrightarrow> startsWith (s @ t) w"
  by (auto simp: startsWith_iff)

text \<open>Dropping characters from the front loses at most one occurrence and gains none.\<close>

lemma match_count_drop_aux:
  "length s \<le> n \<Longrightarrow>
     (\<forall>j. match_count w (drop j s) \<le> match_count w s)
     \<and> (\<forall>k \<le> length w. match_count w s \<le> Suc (match_count w (drop k s)))"
proof (induction n arbitrary: s)
  case 0
  then show ?case by simp
next
  case (Suc n)
  show ?case
  proof (cases s)
    case Nil
    then show ?thesis by simp
  next
    case (Cons c cs)
    then have len: "length cs \<le> n" using Suc.prems by simp
    note IHcs = Suc.IH [OF len]
    have step: "match_count w cs \<le> match_count w (c # cs)"
    proof (cases "w \<noteq> [] \<and> startsWith (c # cs) w")
      case True
      have "length w - 1 \<le> length w" by simp
      with IHcs have "match_count w cs \<le> Suc (match_count w (drop (length w - 1) cs))" by blast
      with True show ?thesis by simp
    next
      case False
      then show ?thesis by auto
    qed
    have S: "match_count w (drop j s) \<le> match_count w s" for j
    proof (cases j)
      case 0
      then show ?thesis by simp
    next
      case (Suc j')
      have "match_count w (drop j' cs) \<le> match_count w cs" using IHcs by blast
      with step show ?thesis using Cons Suc by simp
    qed
    have R: "match_count w s \<le> Suc (match_count w (drop k s))" if k: "k \<le> length w" for k
    proof (cases k)
      case 0
      then show ?thesis by simp
    next
      case (Suc k')
      show ?thesis
      proof (cases "w \<noteq> [] \<and> startsWith (c # cs) w")
        case True
        have len': "length (drop k' cs) \<le> n" using len by simp
        have "match_count w (drop (length w - 1 - k') (drop k' cs)) \<le> match_count w (drop k' cs)"
          using Suc.IH [OF len'] by blast
        moreover have "drop (length w - 1 - k') (drop k' cs) = drop (length w - 1) cs"
          using k Suc by simp
        ultimately show ?thesis using True Cons Suc by simp
      next
        case False
        have "k' \<le> length w" using k Suc by simp
        with IHcs have "match_count w cs \<le> Suc (match_count w (drop k' cs))" by blast
        with False show ?thesis using Cons Suc by auto
      qed
    qed
    from S R show ?thesis by blast
  qed
qed

lemma match_count_prepend: "match_count w s \<le> match_count w (pre @ s)"
proof -
  have "match_count w (drop (length pre) (pre @ s)) \<le> match_count w (pre @ s)"
    using match_count_drop_aux [of "pre @ s" "length (pre @ s)" w] by blast
  then show ?thesis by simp
qed

lemma match_count_append: "match_count w s \<le> match_count w (s @ t)"
proof (induction w s rule: match_count.induct)
  case (1 w)
  then show ?case by simp
next
  case (2 w c s)
  show ?case
  proof (cases "w \<noteq> [] \<and> startsWith (c # s) w")
    case True
    then have l: "length w - 1 \<le> length s" using startsWith_length [of "c # s" w] by simp
    have sw: "startsWith (c # s @ t) w" using True startsWith_append [of "c # s" w t] by simp
    have "match_count w (drop (length w - 1) s) \<le> match_count w (drop (length w - 1) s @ t)"
      using 2 True by simp
    with True sw l show ?thesis by simp
  next
    case False
    then have "match_count w (c # s) = match_count w s" by auto
    also have "\<dots> \<le> match_count w (s @ t)" using 2 False by auto
    also have "\<dots> \<le> match_count w ([c] @ (s @ t))" by (rule match_count_prepend)
    finally show ?thesis by simp
  qed
qed

lemma match_count_extend: "match_count w s \<le> match_count w (pre @ s @ post)"
  using match_count_append [of w s post] match_count_prepend [of w "s @ post" pre] by linarith

section \<open>Spam scorer: the findings and the score\<close>

lemma step_words:
  "map word (stop_word_step txt fnd w) =
     (if trim (toLowerCase w) \<noteq> [] \<and> str_includes txt (trim (toLowerCase w))
         \<and> trim (toLowerCase w) \<notin> set (map word fnd)
      then map word fnd @ [trim (toLowerCase w)] else map word fnd)"
  by (auto simp: stop_word_step_def Let_def list_ex_iff intro: rev_image_eqI)

lemma step_counts:
  "\<forall>item \<in> set fnd. count item = match_count (word item) txt \<Longrightarrow>
   \<forall>item \<in> set (stop_word_step txt fnd w). count item = match_count (word item) txt"
  by (auto simp: stop_word_step_def Let_def)

lemma fold_words_set:
  "set (map word (foldl (stop_word_step txt) fnd ws)) =
     set (map word fnd) \<union> {w \<in> (\<lambda>s. trim (toLowerCase s)) ` set ws. w \<noteq> [] \<and> str_includes txt w}"
proof (induction ws arbitrary: fnd)
  case Nil
  then show ?case by simp
next
  case (Cons a ws)
  have "set (map word (stop_word_step txt fnd a)) =
        set (map word fnd) \<union> {w \<in> {trim (toLowerCase a)}. w \<noteq> [] \<and> str_includes txt w}"
    unfolding step_words by auto
  then show ?case using Cons.IH [of "stop_word_step txt fnd a"] by auto
qed

lemma fold_words_distinct:
  "distinct (map word fnd) \<Longrightarrow> distinct (map word (foldl (stop_word_step txt) fnd ws))"
proof (induction ws arbitrary: fnd)
  case Nil
  then show ?case by simp
next
  case (Cons a ws)
  have "distinct (map word (stop_word_step txt fnd a))"
    unfolding step_words using Cons.prems by auto
  then show ?case using Cons.IH by simp
qed

lemma fold_counts:
  "\<forall>item \<in> set fnd. count item = match_count (word item) txt \<Longrightarrow>
   \<forall>item \<in> set (foldl (stop_word_step txt) fnd ws). count item = match_count (word item) txt"
proof (induction ws arbitrary: fnd)
  case Nil
  then show ?case by simp
next
  case (Cons a ws)
  show ?case using Cons.IH [OF step_counts [OF Cons.prems]] by simp
qed

lemma foldl_sum_counts:
  "foldl (\<lambda>sum item. sum + count item) a fnd = a + sum_list (map count fnd)"
  by (induction fnd arbitrary: a) auto

lemma found_length:
  "length (foldl (stop_word_step (toLowerCase text) ) [] ws) = card (matched_words text ws)"
proof -
  let ?fnd = "foldl (stop_word_step (toLowerCase text)) [] ws"
  have d: "distinct (map word ?fnd)" by (rule fold_words_distinct) simp
  have "set (map word ?fnd) = matched_words text ws"
    unfolding fold_words_set matched_words_def by simp
  then have "card (matched_words text ws) = length (map word ?fnd)"
    using distinct_card [OF d] by simp
  then show ?thesis by simp
qed

lemma found_total:
  "foldl (\<lambda>sum item. sum + count item) 0 (foldl (stop_word_step (toLowerCase text)) [] ws)
     = total_occurrences text ws"
proof -
  let ?txt = "toLowerCase text"
  let ?fnd = "foldl (stop_word_step ?txt) [] ws"
  have d: "distinct (map word ?fnd)" by (rule fold_words_distinct) simp
  have s: "set (map word ?fnd) = matched_words text ws"
    unfolding fold_words_set matched_words_def by simp
  have c: "\<forall>item \<in> set ?fnd. count item = match_count (word item) ?txt"
    by (rule fold_counts) simp
  have "sum_list (map count ?fnd) = sum_list (map (\<lambda>w. match_count w ?txt) (map word ?fnd))"
    using c by (simp add: comp_def cong: map_cong)
  also have "\<dots> = (\<Sum>w \<in> set (map word ?fnd). match_count w ?txt)"
    using d by (rule sum_list_distinct_conv_sum_set)
  finally show ?thesis using s by (simp add: foldl_sum_counts total_occurrences_def)
qed

lemma spam_score_spec:
  "spam_score fnd = spec_spam_score (length fnd) (foldl (\<lambda>sum item. sum + count item) 0 fnd)"
  by (simp add: spam_score_def spec_spam_score_def Let_def)

lemma spec_spam_score_nat: "\<exists>k::nat. spec_spam_score u t = real k"
proof -
  have "min 10 (real u * 2) = real (min 10 (u * 2))" by simp
  moreover have "min 10 (min 10 (real u * 2) + 2) = real (min 10 (min 10 (u * 2) + 2))" by simp
  moreover have "(0::real) = real 0" "(10::real) = real 10" by simp_all
  ultimately show ?thesis unfolding spec_spam_score_def by metis
qed

lemma math_round_tenths: "math_round (real k * 10) / 10 = real k"
proof -
  have "\<lfloor>real k * 10 + 1 / 2\<rfloor> = int k * 10" by linarith
  then show ?thesis by (simp add: math_round_def)
qed

lemma matched_words_empty_text [simp]: "matched_words [] ws = {}"
  by (auto simp: matched_words_def toLowerCase_def)

lemma matched_words_no_words [simp]: "matched_words text [] = {}"
  by (simp add: matched_words_def)

lemma checkStopWords_score:
  "score (checkStopWords text ws) = spec_spam_score (card (matched_words text ws)) (total_occurrences text ws)"
proof (cases "text = [] \<or> ws = []")
  case True
  then show ?thesis by (auto simp: checkStopWords_def spec_spam_score_def)
next
  case False
  let ?fnd = "foldl (stop_word_step (toLowerCase text)) [] ws"
  obtain k :: nat where k: "spam_score ?fnd = real k"
    using spec_spam_score_nat spam_score_spec by metis
  have "score (checkStopWords text ws) = math_round (spam_score ?fnd * 10) / 10"
    using False by (simp add: checkStopWords_def Let_def)
  also have "\<dots> = spam_score ?fnd" unfolding k by (rule math_round_tenths)
  also have "\<dots> = spec_spam_score (card (matched_words text ws)) (total_occurrences text ws)"
    unfolding spam_score_spec found_length found_total ..
  finally show ?thesis .
qed

lemma spec_spam_score_bounds: "0 \<le> spec_spam_score u t \<and> spec_spam_score u t \<le> 10"
  by (simp add: spec_spam_score_def)

lemma spec_spam_score_mono:
  "u \<le> u' \<Longrightarrow> t \<le> t' \<Longrightarrow> spec_spam_score u t \<le> spec_spam_score u' t'"
  by (auto simp: spec_spam_score_def min_def)

lemma finite_matched_words [simp]: "finite (matched_words text ws)"
  by (simp add: matched_words_def)

lemma matched_words_grow:
  assumes "set ws \<subseteq> set ws'" "toLowerCase text' = pre @ toLowerCase text @ post"
  shows "matched_words text ws \<subseteq> matched_words text' ws'"
proof
  fix w assume "w \<in> matched_words text ws"
  then have w: "w \<in> (\<lambda>s. trim (toLowerCase s)) ` set ws" "w \<noteq> []"
      "str_includes (toLowerCase text) w"
    by (simp_all add: matched_words_def)
  from w(3) have "str_includes (pre @ toLowerCase text @ post) w" by (rule str_includes_extend)
  then have "str_includes (toLowerCase text') w" unfolding assms(2) .
  moreover from w(1) assms(1) have "w \<in> (\<lambda>s. trim (toLowerCase s)) ` set ws'" by blast
  ultimately show "w \<in> matched_words text' ws'" using w(2) by (simp add: matched_words_def)
qed

lemma total_occurrences_grow:
  assumes "set ws \<subseteq> set ws'" "toLowerCase text' = pre @ toLowerCase text @ post"
  shows "total_occurrences text ws \<le> total_occurrences text' ws'"
proof -
  let ?M = "matched_words text ws" and ?M' = "matched_words text' ws'"
  have sub: "?M \<subseteq> ?M'" using assms by (rule matched_words_grow)
  have "(\<Sum>w \<in> ?M. match_count w (toLowerCase text))
        \<le> (\<Sum>w \<in> ?M. match_count w (toLowerCase text'))"
    unfolding assms(2) by (rule sum_mono) (rule match_count_extend)
  also have "\<dots> \<le> (\<Sum>w \<in> ?M'. match_count w (toLowerCase text'))"
    using sub by (intro sum_mono2) auto
  finally show ?thesis by (simp add: total_occurrences_def)
qed

text \<open>
  C4. For every text and stop-word list the score of \<open>checkStopWords\<close> is the
  specification's: 0 when no stop word occurs in the text, otherwise
  \<open>min(10, uniqueMatches * 2)\<close>, raised by 2 (capped at 10) when the occurrences of the
  matched words total more than 5, and 10 when they total more than 10. On the text
  \<open>this casino is great, visit our casino today\<close> with the stop word \<open>casino\<close>, the word
  is found twice and the score is 2.
\<close>

theorem checkStopWords_score_formula:
  "score (checkStopWords text stopWords) =
     spec_spam_score (card (matched_words text stopWords)) (total_occurrences text stopWords)
   \<and> checkStopWords ''this casino is great, visit our casino today'' [''casino'']
       = \<lparr>found = [\<lparr>word = ''casino'', count = 2\<rparr>], found_count = 1, score = 2\<rparr>"
proof
  show "score (checkStopWords text stopWords) =
     spec_spam_score (card (matched_words text stopWords)) (total_occurrences text stopWords)"
    by (rule checkStopWords_score)
  show "checkStopWords ''this casino is great, visit our casino today'' [''casino'']
       = \<lparr>found = [\<lparr>word = ''casino'', count = 2\<rparr>], found_count = 1, score = 2\<rparr>"
    by code_simp
qed

text \<open>
  C5, as stated, fails in its second part. The score is not monotone in the number of
  unique matched words: with the stop words \<open>xx\<close> and \<open>yy\<close>, a text with eleven
  \<open>xx\<close> matches one word and scores 10, the text \<open>xx yy\<close> matches two and scores 4.
  Nor does a longer text with more matched words always score as high: inserting \<open>x\<close>
  inside the first word of \<open>abc abc abc abc abc bc\<close> makes three stop words match
  instead of two, and the score goes from 10 to 8, because the occurrences drop from
  11 to 10.
\<close>

theorem score_not_monotone_in_unique_matches_counterexample:
  "card (matched_words ''xx xx xx xx xx xx xx xx xx xx xx'' [''xx'', ''yy'']) = 1
   \<and> score (checkStopWords ''xx xx xx xx xx xx xx xx xx xx xx'' [''xx'', ''yy'']) = 10
   \<and> card (matched_words ''xx yy'' [''xx'', ''yy'']) = 2
   \<and> score (checkStopWords ''xx yy'' [''xx'', ''yy'']) = 4
   \<and> card (matched_words ''abc abc abc abc abc bc'' [''abc'', ''bc'', ''x'']) = 2
   \<and> score (checkStopWords ''abc abc abc abc abc bc'' [''abc'', ''bc'', ''x'']) = 10
   \<and> ''abxc abc abc abc abc bc'' = take 2 ''abc abc abc abc abc bc'' @ ''x'' @ drop 2 ''abc abc abc abc abc bc''
   \<and> card (matched_words ''abxc abc abc abc abc bc'' [''abc'', ''bc'', ''x'']) = 3
   \<and> score (checkStopWords ''abxc abc abc abc abc bc'' [''abc'', ''bc'', ''x'']) = 8"
proof (intro conjI)
  show "card (matched_words ''xx xx xx xx xx xx xx xx xx xx xx'' [''xx'', ''yy'']) = 1"
    by code_simp
  show "score (checkStopWords ''xx xx xx xx xx xx xx xx xx xx xx'' [''xx'', ''yy'']) = 10"
    by code_simp
  show "card (matched_words ''xx yy'' [''xx'', ''yy'']) = 2"
    by code_simp
  show "score (checkStopWords ''xx yy'' [''xx'', ''yy'']) = 4"
    by code_simp
  show "card (matched_words ''abc abc abc abc abc bc'' [''abc'', ''bc'', ''x'']) = 2"
    by code_simp
  show "score (checkStopWords ''abc abc abc abc abc bc'' [''abc'', ''bc'', ''x'']) = 10"
    by code_simp
  show "''abxc abc abc abc abc bc'' = take 2 ''abc abc abc abc abc bc'' @ ''x'' @ drop 2 ''abc abc abc abc abc bc''"
    by simp
  show "card (matched_words ''abxc abc abc abc abc bc'' [''abc'', ''bc'', ''x'']) = 3"
    by code_simp
  show "score (checkStopWords ''abxc abc abc abc abc bc'' [''abc'', ''bc'', ''x'']) = 8"
    by code_simp
qed

text \<open>
  C5, amended. The score lies in [0,10] for every text and stop-word list. It is
  non-decreasing in the number of unique matched words as long as the total of their
  occurrences does not decrease. Both grow, and so the score does not decrease, when
  the stop-word list is extended (to any list containing its words) and the lower-cased
  text is extended (the lower-cased new text is the lower-cased old one with text added
  before and after it). The hypothesis is on the lower-cased texts, so that no property
  of the case mapping is used.
\<close>

theorem checkStopWords_score_bounded_jointly_monotone:
  "0 \<le> score (checkStopWords text stopWords) \<and> score (checkStopWords text stopWords) \<le> 10
   \<and> (card (matched_words text stopWords) \<le> card (matched_words text' stopWords')
        \<and> total_occurrences text stopWords \<le> total_occurrences text' stopWords'
      \<longrightarrow> score (checkStopWords text stopWords) \<le> score (checkStopWords text' stopWords'))
   \<and> (set stopWords \<subseteq> set stopWords' \<and> toLowerCase text' = pre @ toLowerCase text @ post
      \<longrightarrow> card (matched_words text stopWords) \<le> card (matched_words text' stopWords')
          \<and> total_occurrences text stopWords \<le> total_occurrences text' stopWords'
          \<and> score (checkStopWords text stopWords) \<le> score (checkStopWords text' stopWords'))"
proof -
  have b: "0 \<le> score (checkStopWords text stopWords) \<and> score (checkStopWords text stopWords) \<le> 10"
    unfolding checkStopWords_score by (rule spec_spam_score_bounds)
  have m: "score (checkStopWords text stopWords) \<le> score (checkStopWords text' stopWords')"
    if "card (matched_words text stopWords) \<le> card (matched_words text' stopWords')"
       "total_occurrences text stopWords \<le> total_occurrences text' stopWords'"
    unfolding checkStopWords_score using that by (rule spec_spam_score_mono)
  have g: "card (matched_words text stopWords) \<le> card (matched_words text' stopWords')
          \<and> total_occurrences text stopWords \<le> total_occurrences text' stopWords'"
    if h: "set stopWords \<subseteq> set stopWords'" "toLowerCase text' = pre @ toLowerCase text @ post"
  proof
    show "card (matched_words text stopWords) \<le> card (matched_words text' stopWords')"
      using matched_words_grow [OF h] by (simp add: card_mono)
    show "total_occurrences text stopWords \<le> total_occurrences text' stopWords'"
      using h by (rule total_occurrences_grow)
  qed
  from b m g show ?thesis by blast
qed

text \<open>
  With a second stop word and a text extended to contain it, two words match instead
  of one, the occurrences go from 1 to 2 and the score from 2 to 4.
\<close>

theorem checkStopWords_score_bounded_jointly_monotone_witness:
  "set [''casino''] \<subseteq> set [''poker'', ''casino'']
   \<and> toLowerCase ''Casino Poker'' = [] @ toLowerCase ''casino'' @ '' poker''
   \<and> card (matched_words ''casino'' [''casino'']) = 1
   \<and> card (matched_words ''Casino Poker'' [''poker'', ''casino'']) = 2
   \<and> total_occurrences ''casino'' [''casino''] \<le> total_occurrences ''Casino Poker'' [''poker'', ''casino'']
   \<and> score (checkStopWords ''casino'' [''casino''])
       \<le> score (checkStopWords ''Casino Poker'' [''poker'', ''casino''])"
proof -
  have l: "toLowerCase ''Casino Poker'' = [] @ toLowerCase ''casino'' @ '' poker''"
    by code_simp
  have a: "card (matched_words ''casino'' [''casino'']) = 1"
    by code_simp
  have b: "card (matched_words ''Casino Poker'' [''poker'', ''casino'']) = 2"
    by code_simp
  have s: "set [''casino''] \<subseteq> set [''poker'', ''casino'']" by simp
  note T = checkStopWords_score_bounded_jointly_monotone
    [of "''casino''" "[''casino'']" "''Casino Poker''" "[''poker'', ''casino'']" "[]" "'' poker''"]
  from T s l have g: "card (matched_words ''casino'' [''casino'']) \<le> card (matched_words ''Casino Poker'' [''poker'', ''casino''])
     \<and> total_occurrences ''casino'' [''casino''] \<le> total_occurrences ''Casino Poker'' [''poker'', ''casino'']"
    by blast
  with T have "score (checkStopWords ''casino'' [''casino''])
       \<le> score (checkStopWords ''Casino Poker'' [''poker'', ''casino''])"
    by blast
  with s l a b g show ?thesis by blast
qed

section \<open>Per-domain spam pipeline: counts, error notes and final status\<close>

lemma step_ok:
  "capture_ok (snd p) \<Longrightarrow>
     successfullyAnalyzed (spam_loop_step f ws st p) = successfullyAnalyzed st + 1
     \<and> failedSnapshots (spam_loop_step f ws st p) = failedSnapshots st
     \<and> snapshotErrors (spam_loop_step f ws st p) = snapshotErrors st
     \<and> maxSpamScore (spam_loop_step f ws st p) = max (maxSpamScore st) (capture_score f ws p)"
  by (cases "snd p")
     (auto simp: capture_ok_def spam_loop_step_def analyzeHtmlForSpam_def capture_score_def Let_def)

lemma step_failed:
  "\<not> capture_ok (snd p) \<Longrightarrow>
     successfullyAnalyzed (spam_loop_step f ws st p) = successfullyAnalyzed st
     \<and> failedSnapshots (spam_loop_step f ws st p) = failedSnapshots st + 1
     \<and> snapshotErrors (spam_loop_step f ws st p) = snapshotErrors st @ [error_note p]
     \<and> maxSpamScore (spam_loop_step f ws st p) = maxSpamScore st"
  by (cases "snd p")
     (auto simp: capture_ok_def spam_loop_step_def error_note_def new_Error_def errorMsg_def Let_def)

lemma loop_counts:
  "successfullyAnalyzed (foldl (spam_loop_step f ws) st ps) = successfullyAnalyzed st + length (analysed ps)
   \<and> failedSnapshots (foldl (spam_loop_step f ws) st ps) = failedSnapshots st + length (skipped ps)
   \<and> snapshotErrors (foldl (spam_loop_step f ws) st ps) = snapshotErrors st @ map error_note (skipped ps)
   \<and> maxSpamScore (foldl (spam_loop_step f ws) st ps)
       = fold max (map (capture_score f ws) (analysed ps)) (maxSpamScore st)"
proof (induction ps arbitrary: st)
  case Nil
  then show ?case by (simp add: analysed_def skipped_def)
next
  case (Cons p ps)
  show ?case
  proof (cases "capture_ok (snd p)")
    case True
    from step_ok [OF True, of f ws st] Cons.IH [of "spam_loop_step f ws st p"] True
    show ?thesis by (simp add: analysed_def skipped_def max.commute)
  next
    case False
    from step_failed [OF False, of f ws st] Cons.IH [of "spam_loop_step f ws st p"] False
    show ?thesis by (simp add: analysed_def skipped_def)
  qed
qed

lemma analysed_skipped_length: "length (analysed ps) + length (skipped ps) = length ps"
  by (simp add: analysed_def skipped_def sum_length_filter_compl)

lemma length_captures [simp]: "length (captures snapshots fetched) = length snapshots"
  by (simp add: captures_def)

lemma loop_result:
  fixes snapshots fetched f ws
  defines "st \<equiv> foldl (spam_loop_step f ws) spam_loop_init (captures snapshots fetched)"
  shows "successfullyAnalyzed st = length (analysed (captures snapshots fetched))"
    and "failedSnapshots st = length snapshots - length (analysed (captures snapshots fetched))"
    and "snapshotErrors st = map error_note (skipped (captures snapshots fetched))"
    and "maxSpamScore st = max_score f ws (captures snapshots fetched)"
proof -
  let ?ps = "captures snapshots fetched"
  note l = loop_counts [of f ws spam_loop_init ?ps, folded st_def]
  show "successfullyAnalyzed st = length (analysed ?ps)"
    using l by (simp add: spam_loop_init_def)
  show "failedSnapshots st = length snapshots - length (analysed ?ps)"
    using l analysed_skipped_length [of ?ps] by (simp add: spam_loop_init_def)
  show "snapshotErrors st = map error_note (skipped ?ps)"
    using l by (simp add: spam_loop_init_def)
  have "maxSpamScore st = fold max (map (capture_score f ws) (analysed ?ps)) 0"
    using l by (simp add: spam_loop_init_def)
  then show "maxSpamScore st = max_score f ws ?ps"
    unfolding max_score_def Max.set_eq_fold .
qed

lemma finalStatus_by_score:
  "finalStatus st = (if successfullyAnalyzed st = 0 then UNAVAILABLE else status_by_score (maxSpamScore st))"
  by (simp add: finalStatus_def status_by_score_def)

text \<open>
  C6. When the listing returns \<open>n > 0\<close> captures of which \<open>k\<close> are fetched and analysed,
  the result has \<open>snapshotsFound = n\<close>, \<open>snapshotsAnalyzed = k\<close> and
  \<open>failedSnapshots = n - k\<close>; every other capture is in \<open>snapshotErrors\<close> with its error
  note, and the loop goes on after it. The final status is UNAVAILABLE exactly when
  \<open>k = 0\<close>; with \<open>k \<ge> 1\<close> it is CLEAN, SUSPICIOUS or SPAM, by the maximal score of the
  analysed captures (below 5, from 5 and below 8, from 8).
\<close>

theorem spam_pipeline_counts_and_status:
  fixes allTextOf domain stopWords snapshots fetched
  assumes "snapshots \<noteq> []"
  defines "r \<equiv> analyzeDomainForSpam allTextOf domain stopWords (Inr snapshots) fetched"
      and "ps \<equiv> captures snapshots fetched"
  shows "sa_snapshotsFound r = length snapshots
     \<and> sa_snapshotsAnalyzed r = length (analysed ps)
     \<and> (\<exists>d. sa_details r = Some d
            \<and> d_failedSnapshots d = length snapshots - length (analysed ps)
            \<and> d_snapshotErrors d = map error_note (skipped ps))
     \<and> sa_status r = (if length (analysed ps) = 0 then UNAVAILABLE
                      else status_by_score (max_score allTextOf stopWords ps))
     \<and> (length (analysed ps) \<ge> 1 \<longrightarrow> sa_status r \<in> {CLEAN, SUSPICIOUS, SPAM})
     \<and> (sa_status r = UNAVAILABLE \<longrightarrow> length (analysed ps) = 0)"
proof -
  let ?st = "foldl (spam_loop_step allTextOf stopWords) spam_loop_init (captures snapshots fetched)"
  note lr = loop_result [of allTextOf stopWords snapshots fetched]
  have r: "r = \<lparr>sa_domain = domain, sa_status = finalStatus ?st,
                 sa_snapshotsFound = length snapshots,
                 sa_snapshotsAnalyzed = successfullyAnalyzed ?st,
                 sa_error =
                   (if length (snapshotErrors ?st) > 0 \<and> successfullyAnalyzed ?st = 0
                    then Some (''Failed to analyze any snapshots. '' @ show_nat (failedSnapshots ?st)
                               @ '' errors occurred.'')
                    else None),
                 sa_details = Some
                   \<lparr>d_failedSnapshots = failedSnapshots ?st, d_spamSnapshots = spamSnapshots ?st,
                    d_maxSpamScore = round1 (maxSpamScore ?st),
                    d_avgSpamScore = round1 (if spamSnapshots ?st > 0
                                 then totalSpamScore ?st / real (spamSnapshots ?st) else 0),
                    d_spamDetected = (spamSnapshots ?st > 0),
                    d_totalStopWordsFound = length (allFoundStopWords ?st),
                    d_stopWordsFound = sort_key (\<lambda>p. - int (snd p)) (allFoundStopWords ?st),
                    d_firstSpamDate = firstSpamDate ?st,
                    d_snapshotErrors = snapshotErrors ?st\<rparr>\<rparr>"
    using assms(1) unfolding r_def analyzeDomainForSpam_def captures_def Let_def by simp
  have s: "sa_status r = (if length (analysed ps) = 0 then UNAVAILABLE
                      else status_by_score (max_score allTextOf stopWords ps))"
    unfolding r ps_def by (simp add: finalStatus_by_score lr)
  have "sa_snapshotsFound r = length snapshots" unfolding r by simp
  moreover have "sa_snapshotsAnalyzed r = length (analysed ps)" unfolding r ps_def by (simp add: lr)
  moreover have "\<exists>d. sa_details r = Some d
            \<and> d_failedSnapshots d = length snapshots - length (analysed ps)
            \<and> d_snapshotErrors d = map error_note (skipped ps)"
    unfolding r ps_def by (simp add: lr)
  moreover have "length (analysed ps) \<ge> 1 \<longrightarrow> sa_status r \<in> {CLEAN, SUSPICIOUS, SPAM}"
    unfolding s by (auto simp: status_by_score_def)
  moreover have "sa_status r = UNAVAILABLE \<longrightarrow> length (analysed ps) = 0"
    unfolding s by (auto simp: status_by_score_def)
  ultimately show ?thesis using s by blast
qed

text \<open>
  Ten captures of which the fourth and the eighth time out: 10 found, 8 analysed,
  2 failed, and a status that is not UNAVAILABLE. One capture that fails: UNAVAILABLE.
\<close>

theorem spam_pipeline_counts_and_status_witness:
  "(let snapshots = map (\<lambda>i. \<lparr>timestamp = show_nat i, originalUrl = ''http://a.com/'', statusCode = Number 200\<rparr>) [0..<10];
        fetched = (\<lambda>i. if i = 3 \<or> i = 7 then Inl (new_Error ''Request timeout after 120000ms'') else Inr ''<p>hello</p>'');
        r = analyzeDomainForSpam (\<lambda>h. h) ''a.com'' [''casino''] (Inr snapshots) fetched
    in snapshots \<noteq> [] \<and> length (analysed (captures snapshots fetched)) = 8
       \<and> sa_snapshotsFound r = 10 \<and> sa_snapshotsAnalyzed r = 8
       \<and> (\<exists>d. sa_details r = Some d \<and> d_failedSnapshots d = 2 \<and> length (d_snapshotErrors d) = 2)
       \<and> sa_status r \<in> {CLEAN, SUSPICIOUS, SPAM})
   \<and> (let snapshots = [\<lparr>timestamp = ''2020'', originalUrl = ''http://a.com/'', statusCode = Number 200\<rparr>];
            fetched = (\<lambda>i. Inl (new_Error ''boom''));
            r = analyzeDomainForSpam (\<lambda>h. h) ''a.com'' [''casino''] (Inr snapshots) fetched
        in snapshots \<noteq> [] \<and> sa_status r = UNAVAILABLE
           \<and> length (analysed (captures snapshots fetched)) = 0)"
proof -
  define snapshots where "snapshots = map (\<lambda>i. \<lparr>timestamp = show_nat i, originalUrl = ''http://a.com/'', statusCode = Number 200\<rparr>) [0..<10]"
  define fetched :: "nat \<Rightarrow> js_error + string"
    where "fetched = (\<lambda>i. if i = 3 \<or> i = 7 then Inl (new_Error ''Request timeout after 120000ms'') else Inr ''<p>hello</p>'')"
  define snapshots2 where "snapshots2 = [\<lparr>timestamp = ''2020'', originalUrl = ''http://a.com/'', statusCode = Number 200\<rparr>]"
  define fetched2 :: "nat \<Rightarrow> js_error + string" where "fetched2 = (\<lambda>i. Inl (new_Error ''boom''))"
  have n: "snapshots \<noteq> []" "length snapshots = 10" by (simp_all add: snapshots_def)
  have k: "length (analysed (captures snapshots fetched)) = 8"
    unfolding snapshots_def fetched_def by code_simp
  have sk: "length (skipped (captures snapshots fetched)) = 2"
    unfolding snapshots_def fetched_def by code_simp
  have n2: "snapshots2 \<noteq> []" by (simp add: snapshots2_def)
  have u: "sa_status (analyzeDomainForSpam (\<lambda>h. h) ''a.com'' [''casino''] (Inr snapshots2) fetched2) = UNAVAILABLE"
    unfolding snapshots2_def fetched2_def by code_simp
  note A = spam_pipeline_counts_and_status [OF n(1), of "\<lambda>h. h" "''a.com''" "[''casino'']" fetched]
  note B = spam_pipeline_counts_and_status [OF n2, of "\<lambda>h. h" "''a.com''" "[''casino'']" fetched2]
  have "sa_snapshotsFound (analyzeDomainForSpam (\<lambda>h. h) ''a.com'' [''casino''] (Inr snapshots) fetched) = 10"
    using A n by simp
  moreover have "sa_snapshotsAnalyzed (analyzeDomainForSpam (\<lambda>h. h) ''a.com'' [''casino''] (Inr snapshots) fetched) = 8"
    using A k by simp
  moreover have "\<exists>d. sa_details (analyzeDomainForSpam (\<lambda>h. h) ''a.com'' [''casino''] (Inr snapshots) fetched) = Some d
      \<and> d_failedSnapshots d = 2 \<and> length (d_snapshotErrors d) = 2"
    using A k n sk by auto
  moreover have "sa_status (analyzeDomainForSpam (\<lambda>h. h) ''a.com'' [''casino''] (Inr snapshots) fetched) \<in> {CLEAN, SUSPICIOUS, SPAM}"
  proof -
    from A have "length (analysed (captures snapshots fetched)) \<ge> 1 \<longrightarrow>
      sa_status (analyzeDomainForSpam (\<lambda>h. h) ''a.com'' [''casino''] (Inr snapshots) fetched) \<in> {CLEAN, SUSPICIOUS, SPAM}"
      by blast
    moreover have "length (analysed (captures snapshots fetched)) \<ge> 1" unfolding k by simp
    ultimately show ?thesis by blast
  qed
  moreover have "length (analysed (captures snapshots2 fetched2)) = 0"
    using B u by blast
  ultimately show ?thesis
    using n n2 k u unfolding Let_def snapshots_def fetched_def snapshots2_def fetched2_def by blast
qed

section \<open>Archive client: retries, errors and the empty listing\<close>

lemma startsWith_set: "startsWith s w \<Longrightarrow> set w \<subseteq> set s"
  by (induction s w rule: startsWith.induct) auto

lemma str_includes_set: "str_includes s w \<Longrightarrow> set w \<subseteq> set s"
proof (induction s)
  case Nil
  then show ?case by simp
next
  case (Cons c s)
  then show ?case using startsWith_set [of "c # s" w] by auto
qed

lemma show_nat_digits: "set (show_nat n) \<subseteq> char_of ` {48 ..< 58 :: nat}"
proof (induction n rule: show_nat.induct)
  case (1 n)
  show ?case
  proof (cases "n < 10")
    case True
    then have "show_nat n = [char_of (48 + n)]" by (subst show_nat.simps) simp
    moreover have "48 + n \<in> {48 ..< 58}" using True by simp
    ultimately show ?thesis by (metis empty_set empty_subsetI image_eqI insert_subset list.simps(15))
  next
    case False
    then have e: "show_nat n = show_nat (n div 10) @ [char_of (48 + n mod 10)]"
      by (subst show_nat.simps) simp
    have "48 + n mod 10 \<in> {48 ..< 58}" by simp
    then have "char_of (48 + n mod 10) \<in> char_of ` {48 ..< 58 :: nat}" by (rule imageI)
    with 1 False show ?thesis unfolding e by simp
  qed
qed

lemma letter_o_no_digit: "CHR ''o'' \<notin> char_of ` {48 ..< 58 :: nat}"
proof
  assume "CHR ''o'' \<in> char_of ` {48 ..< 58 :: nat}"
  then obtain k :: nat where k: "48 \<le> k" "k < 58" "CHR ''o'' = char_of k" by auto
  then have "of_char (CHR ''o'') = (of_char (char_of k :: char) :: nat)" by simp
  then have "(111 :: nat) = k mod 256" by (simp add: of_char_of)
  with k show False by simp
qed

lemma http_error_rethrown:
  "rethrow timeout (http_error st) =
     new_Error (''Failed to fetch snapshots: CDX API returned HTTP '' @ show_nat st)"
proof -
  have "CHR ''o'' \<notin> set (''CDX API returned HTTP '' @ show_nat st)"
    using show_nat_digits [of st] letter_o_no_digit by auto
  then have "\<not> str_includes (''CDX API returned HTTP '' @ show_nat st) ''timeout''"
    using str_includes_set [of "''CDX API returned HTTP '' @ show_nat st" "''timeout''"] by auto
  then show ?thesis by (simp add: rethrow_def http_error_def new_Error_def)
qed

lemma rate_limit_message:
  "rate_limit_error 3 =
     new_Error ''CDX API rate limit exceeded after 3 retries. Please try again later.''"
  by code_simp

lemma rethrow_plain:
  "err_name e = ''Error'' \<Longrightarrow> \<not> str_includes (err_message e) ''timeout'' \<Longrightarrow>
     rethrow timeout e = new_Error (''Failed to fetch snapshots: '' @ err_message e)"
  by (simp add: rethrow_def)

lemma rate_limit_rethrown:
  "rethrow timeout (rethrow timeout (rethrow timeout (rethrow timeout (rate_limit_error 3)))) =
     new_Error ''Failed to fetch snapshots: Failed to fetch snapshots: Failed to fetch snapshots: Failed to fetch snapshots: CDX API rate limit exceeded after 3 retries. Please try again later.''"
proof -
  have n0: "\<not> str_includes ''CDX API rate limit exceeded after 3 retries. Please try again later.'' ''timeout''"
    by code_simp
  have n1: "\<not> str_includes ''Failed to fetch snapshots: CDX API rate limit exceeded after 3 retries. Please try again later.'' ''timeout''"
    by code_simp
  have n2: "\<not> str_includes ''Failed to fetch snapshots: Failed to fetch snapshots: CDX API rate limit exceeded after 3 retries. Please try again later.'' ''timeout''"
    by code_simp
  have n3: "\<not> str_includes ''Failed to fetch snapshots: Failed to fetch snapshots: Failed to fetch snapshots: CDX API rate limit exceeded after 3 retries. Please try again later.'' ''timeout''"
    by code_simp
  have r0: "rethrow timeout (rate_limit_error 3) =
      new_Error ''Failed to fetch snapshots: CDX API rate limit exceeded after 3 retries. Please try again later.''"
    unfolding rate_limit_message using n0 by (simp add: rethrow_plain new_Error_def)
  have r1: "rethrow timeout (rethrow timeout (rate_limit_error 3)) =
      new_Error ''Failed to fetch snapshots: Failed to fetch snapshots: CDX API rate limit exceeded after 3 retries. Please try again later.''"
    unfolding r0 using n1 by (simp add: rethrow_plain new_Error_def)
  have r2: "rethrow timeout (rethrow timeout (rethrow timeout (rate_limit_error 3))) =
      new_Error ''Failed to fetch snapshots: Failed to fetch snapshots: Failed to fetch snapshots: CDX API rate limit exceeded after 3 retries. Please try again later.''"
    unfolding r1 using n2 by (simp add: rethrow_plain new_Error_def)
  show ?thesis
    unfolding r2 using n3 by (simp add: rethrow_plain new_Error_def)
qed

lemma backoff_step:
  "server retryCount = Reply 429 json \<Longrightarrow> retryCount < maxRetries \<Longrightarrow>
     getSnapshots timeout server retryCount maxRetries =
       (2 ^ retryCount * 2000 # fst (getSnapshots timeout server (retryCount + 1) maxRetries),
        case snd (getSnapshots timeout server (retryCount + 1) maxRetries) of
          Inl e \<Rightarrow> Inl (rethrow timeout e) | Inr snaps \<Rightarrow> Inr snaps)"
  by (subst getSnapshots.simps) (simp add: Let_def)

lemma backoff_next:
  "server retryCount = Reply 429 json \<Longrightarrow> retryCount < maxRetries \<Longrightarrow> next = retryCount + 1 \<Longrightarrow>
     getSnapshots timeout server retryCount maxRetries =
       (2 ^ retryCount * 2000 # fst (getSnapshots timeout server next maxRetries),
        case snd (getSnapshots timeout server next maxRetries) of
          Inl e \<Rightarrow> Inl (rethrow timeout e) | Inr snaps \<Rightarrow> Inr snaps)"
  using backoff_step by simp

lemma retries_exhausted:
  "server retryCount = Reply 429 json \<Longrightarrow> \<not> retryCount < maxRetries \<Longrightarrow>
     getSnapshots timeout server retryCount maxRetries =
       ([], Inl (rethrow timeout (rate_limit_error maxRetries)))"
  by (subst getSnapshots.simps) simp

lemma always_rate_limited:
  assumes "\<forall>k \<le> 3. \<exists>json. server k = Reply 429 json"
  shows "getSnapshots timeout server 0 3 =
    ([2000, 4000, 8000],
     Inl (new_Error ''Failed to fetch snapshots: Failed to fetch snapshots: Failed to fetch snapshots: Failed to fetch snapshots: CDX API rate limit exceeded after 3 retries. Please try again later.''))"
proof -
  from assms have "\<exists>json. server 0 = Reply 429 json" "\<exists>json. server 1 = Reply 429 json"
    "\<exists>json. server 2 = Reply 429 json" "\<exists>json. server 3 = Reply 429 json"
    by simp_all
  then obtain j0 j1 j2 j3 where
    j: "server 0 = Reply 429 j0" "server 1 = Reply 429 j1" "server 2 = Reply 429 j2"
       "server 3 = Reply 429 j3"
    by blast
  have 3: "getSnapshots timeout server 3 3 = ([], Inl (rethrow timeout (rate_limit_error 3)))"
    by (rule retries_exhausted [of server 3 j3]) (use j in simp_all)
  have "getSnapshots timeout server 2 3 =
      (2 ^ 2 * 2000 # fst (getSnapshots timeout server 3 3),
       case snd (getSnapshots timeout server 3 3) of
         Inl e \<Rightarrow> Inl (rethrow timeout e) | Inr snaps \<Rightarrow> Inr snaps)"
    by (rule backoff_next [of server 2 j2]) (use j in simp_all)
  then have 2: "getSnapshots timeout server 2 3 =
      ([8000], Inl (rethrow timeout (rethrow timeout (rate_limit_error 3))))"
    unfolding 3 by simp
  have "getSnapshots timeout server 1 3 =
      (2 ^ 1 * 2000 # fst (getSnapshots timeout server 2 3),
       case snd (getSnapshots timeout server 2 3) of
         Inl e \<Rightarrow> Inl (rethrow timeout e) | Inr snaps \<Rightarrow> Inr snaps)"
    by (rule backoff_next [of server 1 j1]) (use j in simp_all)
  then have 1: "getSnapshots timeout server 1 3 =
      ([4000, 8000], Inl (rethrow timeout (rethrow timeout (rethrow timeout (rate_limit_error 3)))))"
    unfolding 2 by simp
  have "getSnapshots timeout server 0 3 =
      (2 ^ 0 * 2000 # fst (getSnapshots timeout server 1 3),
       case snd (getSnapshots timeout server 1 3) of
         Inl e \<Rightarrow> Inl (rethrow timeout e) | Inr snaps \<Rightarrow> Inr snaps)"
    by (rule backoff_next [of server 0 j0]) (use j in simp_all)
  then have "getSnapshots timeout server 0 3 =
      ([2000, 4000, 8000],
       Inl (rethrow timeout (rethrow timeout (rethrow timeout (rethrow timeout (rate_limit_error 3))))))"
    unfolding 1 by simp
  then show ?thesis unfolding rate_limit_rethrown .
qed

text \<open>
  C7, as stated, fails in its second part: a response with a status other than 200 and
  429 does not always fail. The code tests \<open>response.ok\<close>, so a 203 answer with a
  body is read like a 200 one, and its capture is returned.
\<close>

theorem ok_status_not_200_counterexample:
  "getSnapshots 120000 (\<lambda>k. Reply 203 (Rows [[''20200101000000'', ''http://example.com/'', ''200'']])) 0 3
     = ([], Inr [\<lparr>timestamp = ''20200101000000'', originalUrl = ''http://example.com/'',
                  statusCode = Number 200\<rparr>])"
proof -
  have "rows_to_snapshots [[''20200101000000'', ''http://example.com/'', ''200'']]
      = [\<lparr>timestamp = ''20200101000000'', originalUrl = ''http://example.com/'',
                  statusCode = Number 200\<rparr>]"
    by code_simp
  then show ?thesis
    by (subst getSnapshots.simps) (simp add: response_ok_def)
qed

text \<open>
  C7, amended. A call that is answered 429 waits \<open>2 ^ retryCount * 2000\<close> ms and retries
  while \<open>retryCount < maxRetries\<close>; with the default of 3 retries and four 429 answers
  it has waited 2000, 4000 and 8000 ms and fails with the rate-limit error (re-thrown
  by the \<open>catch\<close> of each level). A response whose status is not 429 and outside
  200..299 fails with the error \<open>CDX API returned HTTP <status>\<close>. An \<open>ok\<close>
  response whose body has no record (an empty array, or no array) gives the empty list.
\<close>

theorem getSnapshots_outcomes:
  "((\<forall>k \<le> 3. \<exists>json. server k = Reply 429 json) \<longrightarrow>
      getSnapshots timeout server 0 3 =
        ([2000, 4000, 8000],
         Inl (new_Error ''Failed to fetch snapshots: Failed to fetch snapshots: Failed to fetch snapshots: Failed to fetch snapshots: CDX API rate limit exceeded after 3 retries. Please try again later.'')))
   \<and> (server retryCount = Reply 429 json \<and> retryCount < maxRetries \<longrightarrow>
        fst (getSnapshots timeout server retryCount maxRetries) =
          2 ^ retryCount * 2000 # fst (getSnapshots timeout server (retryCount + 1) maxRetries))
   \<and> (server retryCount = Reply st json \<and> st \<noteq> 429 \<and> \<not> response_ok st \<longrightarrow>
        getSnapshots timeout server retryCount maxRetries =
          ([], Inl (new_Error (''Failed to fetch snapshots: CDX API returned HTTP '' @ show_nat st))))
   \<and> (server retryCount = Reply st json \<and> response_ok st \<and> (json = Rows [] \<or> json = NotArray) \<longrightarrow>
        getSnapshots timeout server retryCount maxRetries = ([], Inr []))"
proof (intro conjI impI)
  assume "\<forall>k \<le> 3. \<exists>json. server k = Reply 429 json"
  then show "getSnapshots timeout server 0 3 =
        ([2000, 4000, 8000],
         Inl (new_Error ''Failed to fetch snapshots: Failed to fetch snapshots: Failed to fetch snapshots: Failed to fetch snapshots: CDX API rate limit exceeded after 3 retries. Please try again later.''))"
    by (rule always_rate_limited)
next
  assume "server retryCount = Reply 429 json \<and> retryCount < maxRetries"
  then show "fst (getSnapshots timeout server retryCount maxRetries) =
          2 ^ retryCount * 2000 # fst (getSnapshots timeout server (retryCount + 1) maxRetries)"
    using backoff_step [of server retryCount json maxRetries timeout] by simp
next
  assume "server retryCount = Reply st json \<and> st \<noteq> 429 \<and> \<not> response_ok st"
  then show "getSnapshots timeout server retryCount maxRetries =
          ([], Inl (new_Error (''Failed to fetch snapshots: CDX API returned HTTP '' @ show_nat st)))"
    by (subst getSnapshots.simps) (simp add: http_error_rethrown)
next
  assume "server retryCount = Reply st json \<and> response_ok st \<and> (json = Rows [] \<or> json = NotArray)"
  then show "getSnapshots timeout server retryCount maxRetries = ([], Inr [])"
    by (subst getSnapshots.simps) (auto simp: response_ok_def rows_to_snapshots_def)
qed

text \<open>
  An index that always answers 429, one that answers 503, and one that answers 200
  with an empty array.
\<close>

theorem getSnapshots_outcomes_witness:
  "getSnapshots 120000 (\<lambda>k. Reply 429 NotArray) 0 3 =
     ([2000, 4000, 8000],
      Inl (new_Error ''Failed to fetch snapshots: Failed to fetch snapshots: Failed to fetch snapshots: Failed to fetch snapshots: CDX API rate limit exceeded after 3 retries. Please try again later.''))
   \<and> fst (getSnapshots 120000 (\<lambda>k. Reply 429 NotArray) 0 3)
       = 2 ^ 0 * 2000 # fst (getSnapshots 120000 (\<lambda>k. Reply 429 NotArray) (0 + 1) 3)
   \<and> getSnapshots 120000 (\<lambda>k. Reply 503 NotArray) 0 3 =
       ([], Inl (new_Error ''Failed to fetch snapshots: CDX API returned HTTP 503''))
   \<and> getSnapshots 120000 (\<lambda>k. Reply 200 (Rows [])) 0 3 = ([], Inr [])"
proof -
  have s: "show_nat 503 = ''503''" by code_simp
  have ok: "\<not> response_ok 503" "response_ok 200" by (simp_all add: response_ok_def)
  note A = getSnapshots_outcomes [where server = "\<lambda>k. Reply 429 NotArray" and timeout = 120000
      and retryCount = 0 and maxRetries = 3 and json = NotArray and st = 429]
  note B = getSnapshots_outcomes [where server = "\<lambda>k. Reply 503 NotArray" and timeout = 120000
      and retryCount = 0 and maxRetries = 3 and json = NotArray and st = 503]
  note C = getSnapshots_outcomes [where server = "\<lambda>k. Reply 200 (Rows [])" and timeout = 120000
      and retryCount = 0 and maxRetries = 3 and json = "Rows []" and st = 200]
  have "getSnapshots 120000 (\<lambda>k. Reply 429 NotArray) 0 3 =
     ([2000, 4000, 8000],
      Inl (new_Error ''Failed to fetch snapshots: Failed to fetch snapshots: Failed to fetch snapshots: Failed to fetch snapshots: CDX API rate limit exceeded after 3 retries. Please try again later.''))"
    using A [THEN conjunct1] by simp
  moreover have "fst (getSnapshots 120000 (\<lambda>k. Reply 429 NotArray) 0 3)
       = 2 ^ 0 * 2000 # fst (getSnapshots 120000 (\<lambda>k. Reply 429 NotArray) (0 + 1) 3)"
    using A [THEN conjunct2, THEN conjunct1] by simp
  moreover have "getSnapshots 120000 (\<lambda>k. Reply 503 NotArray) 0 3 =
       ([], Inl (new_Error ''Failed to fetch snapshots: CDX API returned HTTP 503''))"
    using B [THEN conjunct2, THEN conjunct2, THEN conjunct1] ok s by simp
  moreover have "getSnapshots 120000 (\<lambda>k. Reply 200 (Rows [])) 0 3 = ([], Inr [])"
    using C [THEN conjunct2, THEN conjunct2, THEN conjunct2] ok by simp
  ultimately show ?thesis by blast
qed

section \<open>Topic-stability analyzer: the stability score\<close>

lemma adjacent_pairs_Cons2 [simp]:
  "adjacent_pairs (a # b # rest) = (a, b) # adjacent_pairs (b # rest)"
  by (simp add: adjacent_pairs_def)

lemma adjacent_pairs_short [simp]: "adjacent_pairs [] = []" "adjacent_pairs [a] = []"
  by (simp_all add: adjacent_pairs_def)

lemma length_adjacent_pairs: "length (adjacent_pairs ts) = length ts - 1"
  by (simp add: adjacent_pairs_def)

lemma similarity_loop_sum:
  "similarity_loop kw ts (tot, n) =
     (tot + sum_list (map (\<lambda>p. calculateTopicSimilarity kw (fst p) (snd p)) (adjacent_pairs ts)),
      n + length (adjacent_pairs ts))"
  by (induction kw ts "(tot, n)" arbitrary: tot n rule: similarity_loop.induct)
     (simp_all add: add.assoc)

lemma stabilityScore_spec:
  "stabilityScore (analyzeTopicStability extractTopics kw snapshots)
     = spec_stability kw (topics_with_html extractTopics snapshots)"
proof -
  let ?ts = "topics_with_html extractTopics snapshots"
  have h: "map snd (map (\<lambda>sn. (fst sn, extractTopics (snd sn))) (filter (\<lambda>sn. snd sn \<noteq> []) snapshots)) = ?ts"
    by (simp add: topics_with_html_def comp_def)
  have l: "length (map (\<lambda>sn. (fst sn, extractTopics (snd sn))) (filter (\<lambda>sn. snd sn \<noteq> []) snapshots)) = length ?ts"
    by (simp add: topics_with_html_def)
  show ?thesis
  proof (cases "length ?ts = 0")
    case True
    then show ?thesis
      unfolding analyzeTopicStability_def Let_def l spec_stability_def by simp
  next
    case False
    then consider "length ?ts = 1" | "length ?ts > 1" by linarith
    then show ?thesis
    proof cases
      case 1
      then show ?thesis
        unfolding analyzeTopicStability_def Let_def l h spec_stability_def
        by (simp add: similarity_loop_sum length_adjacent_pairs)
    next
      case 2
      then show ?thesis
        unfolding analyzeTopicStability_def Let_def l h spec_stability_def
        by (simp add: similarity_loop_sum length_adjacent_pairs)
    qed
  qed
qed

text \<open>
  C8, as stated, fails for a list that is not in chronological order: the code pairs
  the captures in the order of the list and never sorts them. For captures given as
  2020, 2022, 2021, of which the first and the last have the same title, the score
  returned is 0; the pairs adjacent in time (2020 with 2021, 2021 with 2022) have the
  similarities 100 and 0, whose mean is 50.
\<close>

theorem unsorted_captures_counterexample:
  "chronological [(''20200101000000'', ''red green blue''), (''20220101000000'', ''one two three''),
                  (''20210101000000'', ''red green blue'')]
     = [(''20200101000000'', ''red green blue''), (''20210101000000'', ''red green blue''),
        (''20220101000000'', ''one two three'')]
   \<and> stabilityScore (analyzeTopicStability
         (\<lambda>h. \<lparr>title = h, headings = [], metaDescription = [], metaKeywords = [], ogTitle = [],
                ogDescription = [], contentWords = []\<rparr>)
         (\<lambda>ws n. take n ws)
         [(''20200101000000'', ''red green blue''), (''20220101000000'', ''one two three''),
          (''20210101000000'', ''red green blue'')]) = Number 0
   \<and> spec_stability (\<lambda>ws n. take n ws)
         (topics_with_html
           (\<lambda>h. \<lparr>title = h, headings = [], metaDescription = [], metaKeywords = [], ogTitle = [],
                  ogDescription = [], contentWords = []\<rparr>)
           (chronological [(''20200101000000'', ''red green blue''), (''20220101000000'', ''one two three''),
                           (''20210101000000'', ''red green blue'')])) = Number 50"
proof -
  let ?ex = "\<lambda>h. \<lparr>title = h, headings = [], metaDescription = [], metaKeywords = [], ogTitle = [],
                ogDescription = [], contentWords = []\<rparr>"
  let ?kw = "\<lambda>(ws :: string list) n. take n ws"
  have c: "chronological [(''20200101000000'', ''red green blue''), (''20220101000000'', ''one two three''),
                  (''20210101000000'', ''red green blue'')]
     = [(''20200101000000'', ''red green blue''), (''20210101000000'', ''red green blue''),
        (''20220101000000'', ''one two three'')]"
    by (simp add: chronological_def timestamp_value_def)
  have g: "stabilityScore (analyzeTopicStability ?ex ?kw
         [(''20200101000000'', ''red green blue''), (''20220101000000'', ''one two three''),
          (''20210101000000'', ''red green blue'')]) = Number 0"
    by code_simp
  have v: "spec_stability ?kw (topics_with_html ?ex
         [(''20200101000000'', ''red green blue''), (''20210101000000'', ''red green blue''),
          (''20220101000000'', ''one two three'')]) = Number 50"
    by code_simp
  from c g v show ?thesis by simp
qed

text \<open>
  C8, amended. For every list of captures the stability score returned is the rounded
  mean of the similarities of the pairs of captures that are adjacent in the list
  given, among those that have HTML; this is the mean over the chronologically
  adjacent pairs when the list is in chronological order. It is 100 when exactly one
  capture has HTML, and \<open>null\<close> when none has.
\<close>

theorem stabilityScore_is_mean_of_listed_pairs:
  "stabilityScore (analyzeTopicStability extractTopics kw snapshots)
     = spec_stability kw (topics_with_html extractTopics snapshots)
   \<and> (chronological snapshots = snapshots \<longrightarrow>
        stabilityScore (analyzeTopicStability extractTopics kw snapshots)
          = spec_stability kw (topics_with_html extractTopics (chronological snapshots)))
   \<and> (length (filter (\<lambda>sn. snd sn \<noteq> []) snapshots) = 1 \<longrightarrow>
        stabilityScore (analyzeTopicStability extractTopics kw snapshots) = Number 100)
   \<and> (length (filter (\<lambda>sn. snd sn \<noteq> []) snapshots) = 0 \<longrightarrow>
        stabilityScore (analyzeTopicStability extractTopics kw snapshots) = Null)"
proof (intro conjI impI)
  show "stabilityScore (analyzeTopicStability extractTopics kw snapshots)
     = spec_stability kw (topics_with_html extractTopics snapshots)"
    by (rule stabilityScore_spec)
next
  assume "chronological snapshots = snapshots"
  then show "stabilityScore (analyzeTopicStability extractTopics kw snapshots)
          = spec_stability kw (topics_with_html extractTopics (chronological snapshots))"
    by (simp add: stabilityScore_spec)
next
  assume "length (filter (\<lambda>sn. snd sn \<noteq> []) snapshots) = 1"
  then show "stabilityScore (analyzeTopicStability extractTopics kw snapshots) = Number 100"
    unfolding stabilityScore_spec by (simp add: spec_stability_def topics_with_html_def)
next
  assume "length (filter (\<lambda>sn. snd sn \<noteq> []) snapshots) = 0"
  then show "stabilityScore (analyzeTopicStability extractTopics kw snapshots) = Null"
    unfolding stabilityScore_spec by (simp add: spec_stability_def topics_with_html_def)
qed

text \<open>
  Three captures in chronological order, two captures of which one has HTML, and a
  single capture without HTML.
\<close>

theorem stabilityScore_is_mean_of_listed_pairs_witness:
  "chronological [(''20200101000000'', ''red green blue''), (''20210101000000'', ''red green blue''),
                  (''20220101000000'', ''one two three'')]
     = [(''20200101000000'', ''red green blue''), (''20210101000000'', ''red green blue''),
        (''20220101000000'', ''one two three'')]
   \<and> stabilityScore (analyzeTopicStability
         (\<lambda>h. \<lparr>title = h, headings = [], metaDescription = [], metaKeywords = [], ogTitle = [],
                ogDescription = [], contentWords = []\<rparr>)
         (\<lambda>ws n. take n ws)
         [(''20200101000000'', ''red green blue''), (''20210101000000'', ''red green blue''),
          (''20220101000000'', ''one two three'')]) = Number 50
   \<and> length (filter (\<lambda>sn. snd sn \<noteq> []) [(''20200101000000'', ''<title>Home</title>''), (''20210101000000'', [])]) = 1
   \<and> stabilityScore (analyzeTopicStability
         (\<lambda>h. \<lparr>title = h, headings = [], metaDescription = [], metaKeywords = [], ogTitle = [],
                ogDescription = [], contentWords = []\<rparr>)
         (\<lambda>ws n. take n ws) [(''20200101000000'', ''<title>Home</title>''), (''20210101000000'', [])]) = Number 100
   \<and> length (filter (\<lambda>sn. snd sn \<noteq> []) [(''20210101000000'', [])]) = 0
   \<and> stabilityScore (analyzeTopicStability
         (\<lambda>h. \<lparr>title = h, headings = [], metaDescription = [], metaKeywords = [], ogTitle = [],
                ogDescription = [], contentWords = []\<rparr>)
         (\<lambda>ws n. take n ws) [(''20210101000000'', [])]) = Null"
proof -
  let ?ex = "\<lambda>h. \<lparr>title = h, headings = [], metaDescription = [], metaKeywords = [], ogTitle = [],
                ogDescription = [], contentWords = []\<rparr>"
  let ?kw = "\<lambda>(ws :: string list) n. take n ws"
  let ?l = "[(''20200101000000'', ''red green blue''), (''20210101000000'', ''red green blue''),
             (''20220101000000'', ''one two three'')]"
  have c: "chronological ?l = ?l" by (simp add: chronological_def timestamp_value_def)
  have v: "spec_stability ?kw (topics_with_html ?ex ?l) = Number 50" by code_simp
  have one: "length (filter (\<lambda>sn. snd sn \<noteq> []) [(''20200101000000'', ''<title>Home</title>''), (''20210101000000'', [])]) = 1"
    by simp
  have none: "length (filter (\<lambda>sn. snd sn \<noteq> []) [(''20210101000000'', [])]) = 0"
    by simp
  note C = stabilityScore_is_mean_of_listed_pairs [of ?ex ?kw ?l, THEN conjunct2, THEN conjunct1]
  note A = stabilityScore_is_mean_of_listed_pairs
    [of ?ex ?kw "[(''20200101000000'', ''<title>Home</title>''), (''20210101000000'', [])]",
     THEN conjunct2, THEN conjunct2, THEN conjunct1]
  note B = stabilityScore_is_mean_of_listed_pairs
    [of ?ex ?kw "[(''20210101000000'', [])]", THEN conjunct2, THEN conjunct2, THEN conjunct2]
  from C c have "stabilityScore (analyzeTopicStability ?ex ?kw ?l)
      = spec_stability ?kw (topics_with_html ?ex (chronological ?l))" by blast
  then have s: "stabilityScore (analyzeTopicStability ?ex ?kw ?l) = Number 50"
    unfolding c v .
  from A one have a: "stabilityScore (analyzeTopicStability ?ex ?kw
      [(''20200101000000'', ''<title>Home</title>''), (''20210101000000'', [])]) = Number 100"
    by blast
  from B none have b: "stabilityScore (analyzeTopicStability ?ex ?kw [(''20210101000000'', [])]) = Null"
    by blast
  from c s one none a b show ?thesis by blast
qed

section \<open>Topic-stability analyzer: captures without extractable content\<close>

lemma no_factor_similarity:
  assumes "no_factor_computable t1 t2"
  shows "calculateTopicSimilarity kw t1 t2 = 0"
proof -
  have c1: "(title t1 \<noteq> [] \<and> title t2 \<noteq> []) = False"
    using assms by (simp add: no_factor_computable_def)
  have c2: "(length (headings t1) > 0 \<and> length (headings t2) > 0) = False"
    using assms by (simp add: no_factor_computable_def)
  have c3: "(metaDescription t1 \<noteq> [] \<and> metaDescription t2 \<noteq> []) = False"
    using assms by (simp add: no_factor_computable_def)
  have c4: "(length (contentWords t1) > 0 \<and> length (contentWords t2) > 0) = False"
    using assms by (simp add: no_factor_computable_def)
  show ?thesis
    unfolding calculateTopicSimilarity_def c1 c2 c3 c4 by simp
qed

lemma no_factor_sym: "no_factor_computable t1 t2 \<Longrightarrow> no_factor_computable t2 t1"
  by (auto simp: no_factor_computable_def)

lemma math_round_0 [simp]: "math_round 0 = 0"
  by (simp add: math_round_def)

lemma two_or_more: "2 \<le> length ts \<Longrightarrow> ts \<noteq> [] \<and> butlast ts \<noteq> []"
proof -
  assume "2 \<le> length ts"
  then obtain a b rest where "ts = a # b # rest"
    by (metis Suc_le_length_iff numeral_2_eq_2)
  then show ?thesis by simp
qed

lemma last_pair_adjacent:
  assumes "length ts \<ge> 2"
  shows "(last (butlast ts), last ts) \<in> set (adjacent_pairs ts)"
proof -
  let ?n = "length ts"
  have b: "butlast ts \<noteq> []" "ts \<noteq> []" using two_or_more [OF assms] by simp_all
  have 1: "last (butlast ts) = ts ! (?n - 2)"
    using assms b by (simp add: last_conv_nth nth_butlast numeral_2_eq_2)
  have 2: "last ts = tl ts ! (?n - 2)"
    using assms b by (simp add: last_conv_nth nth_tl numeral_2_eq_2 Suc_diff_Suc)
  have "?n - 2 < length ts" "?n - 2 < length (tl ts)" using assms by auto
  then show ?thesis unfolding adjacent_pairs_def in_set_zip 1 2 by auto
qed

lemma shift_flag_raised:
  assumes "history \<noteq> []" "calculateTopicSimilarity kw tp (last history) = 0"
  shows "(flag ''major_topic_shift'' ''high'')\<lparr>flag_similarity := Some 0\<rparr>
           \<in> set (detectRedFlags kw tp history)"
  using assms by (simp add: detectRedFlags_def Let_def)

lemma redFlags_of_analysis:
  "topics_with_html extractTopics snapshots \<noteq> [] \<Longrightarrow>
     redFlags (analyzeTopicStability extractTopics kw snapshots) =
       detectRedFlags kw (last (topics_with_html extractTopics snapshots))
         (butlast (topics_with_html extractTopics snapshots))"
proof -
  assume a: "topics_with_html extractTopics snapshots \<noteq> []"
  have h: "map snd (map (\<lambda>sn. (fst sn, extractTopics (snd sn))) (filter (\<lambda>sn. snd sn \<noteq> []) snapshots))
           = topics_with_html extractTopics snapshots"
    by (simp add: topics_with_html_def comp_def)
  have l: "length (map (\<lambda>sn. (fst sn, extractTopics (snd sn))) (filter (\<lambda>sn. snd sn \<noteq> []) snapshots))
           = length (topics_with_html extractTopics snapshots)"
    by (simp add: topics_with_html_def)
  show ?thesis
    unfolding analyzeTopicStability_def Let_def l h using a
    by (simp split: prod.splits)
qed

text \<open>
  C10. When none of the four comparison factors of two topic summaries is computable,
  their similarity is 0. So when at least two captures have HTML and no adjacent pair of
  them has a computable factor, the stability score is 0, and the red flags of the
  latest capture contain a \<open>major_topic_shift\<close> flag of severity \<open>high\<close> with
  similarity 0.
\<close>

theorem no_content_similarity_zero:
  "(no_factor_computable t1 t2 \<longrightarrow> calculateTopicSimilarity kw t1 t2 = 0)
   \<and> (length (topics_with_html extractTopics snapshots) \<ge> 2
        \<and> (\<forall>p \<in> set (adjacent_pairs (topics_with_html extractTopics snapshots)).
              no_factor_computable (fst p) (snd p))
      \<longrightarrow> stabilityScore (analyzeTopicStability extractTopics kw snapshots) = Number 0
          \<and> (flag ''major_topic_shift'' ''high'')\<lparr>flag_similarity := Some 0\<rparr>
                \<in> set (redFlags (analyzeTopicStability extractTopics kw snapshots))
          \<and> severity ((flag ''major_topic_shift'' ''high'')\<lparr>flag_similarity := Some 0\<rparr>) = ''high'')"
proof (intro conjI impI)
  assume "no_factor_computable t1 t2"
  then show "calculateTopicSimilarity kw t1 t2 = 0" by (rule no_factor_similarity)
next
  let ?ts = "topics_with_html extractTopics snapshots"
  assume a: "length ?ts \<ge> 2 \<and> (\<forall>p \<in> set (adjacent_pairs ?ts). no_factor_computable (fst p) (snd p))"
  then have z: "map (\<lambda>p. calculateTopicSimilarity kw (fst p) (snd p)) (adjacent_pairs ?ts)
                = map (\<lambda>p. 0) (adjacent_pairs ?ts)"
    by (simp add: no_factor_similarity)
  from a have l2: "2 \<le> length ?ts" by blast
  then have "length ?ts \<noteq> 0" and "length ?ts \<noteq> 1" by linarith+
  then have n0: "(length ?ts = 0) = False" and n1: "(length ?ts = 1) = False" by blast+
  show "stabilityScore (analyzeTopicStability extractTopics kw snapshots) = Number 0"
    unfolding stabilityScore_spec spec_stability_def n0 n1 z by simp
  have ne: "?ts \<noteq> []" "butlast ?ts \<noteq> []" using two_or_more [OF l2] by blast+
  have "(last (butlast ?ts), last ?ts) \<in> set (adjacent_pairs ?ts)"
    using l2 by (rule last_pair_adjacent)
  with a have "no_factor_computable (fst (last (butlast ?ts), last ?ts)) (snd (last (butlast ?ts), last ?ts))"
    by blast
  then have "no_factor_computable (last (butlast ?ts)) (last ?ts)"
    by simp
  then have "no_factor_computable (last ?ts) (last (butlast ?ts))"
    by (rule no_factor_sym)
  then have "calculateTopicSimilarity kw (last ?ts) (last (butlast ?ts)) = 0"
    by (rule no_factor_similarity)
  then show "(flag ''major_topic_shift'' ''high'')\<lparr>flag_similarity := Some 0\<rparr>
                \<in> set (redFlags (analyzeTopicStability extractTopics kw snapshots))"
    unfolding redFlags_of_analysis [OF ne(1)] using ne(2) by (rule shift_flag_raised [rotated])
  show "severity ((flag ''major_topic_shift'' ''high'')\<lparr>flag_similarity := Some 0\<rparr>) = ''high''"
    by (simp add: flag_def)
qed

text \<open>Two captures whose pages give no title, heading, description or content word.\<close>

theorem no_content_similarity_zero_witness:
  "(let e = \<lparr>title = [], headings = [], metaDescription = [], metaKeywords = [], ogTitle = [],
              ogDescription = [], contentWords = []\<rparr>;
        snapshots = [(''20200101'', ''<html></html>''), (''20210101'', ''<html></html>'')];
        r = analyzeTopicStability (\<lambda>h. e) (\<lambda>ws n. take n ws) snapshots
    in no_factor_computable e e \<and> calculateTopicSimilarity (\<lambda>ws n. take n ws) e e = 0
       \<and> length (topics_with_html (\<lambda>h. e) snapshots) = 2
       \<and> stabilityScore r = Number 0
       \<and> (flag ''major_topic_shift'' ''high'')\<lparr>flag_similarity := Some 0\<rparr> \<in> set (redFlags r))"
proof -
  define e where "e = \<lparr>title = [], headings = [], metaDescription = [], metaKeywords = [], ogTitle = [],
              ogDescription = [], contentWords = []\<rparr>"
  define snapshots where "snapshots = [(''20200101'', ''<html></html>''), (''20210101'', ''<html></html>'')]"
  let ?kw = "\<lambda>(ws :: string list) n. take n ws"
  have nf: "no_factor_computable e e" by (simp add: no_factor_computable_def e_def)
  have ts: "topics_with_html (\<lambda>h. e) snapshots = [e, e]"
    by (simp add: topics_with_html_def snapshots_def)
  have h: "length (topics_with_html (\<lambda>h. e) snapshots) \<ge> 2
        \<and> (\<forall>p \<in> set (adjacent_pairs (topics_with_html (\<lambda>h. e) snapshots)).
              no_factor_computable (fst p) (snd p))"
    unfolding ts using nf by (simp add: adjacent_pairs_def)
  note T = no_content_similarity_zero [of e e ?kw "\<lambda>h. e" snapshots]
  from T nf have "calculateTopicSimilarity ?kw e e = 0" by blast
  moreover from T h have "stabilityScore (analyzeTopicStability (\<lambda>h. e) ?kw snapshots) = Number 0
          \<and> (flag ''major_topic_shift'' ''high'')\<lparr>flag_similarity := Some 0\<rparr>
                \<in> set (redFlags (analyzeTopicStability (\<lambda>h. e) ?kw snapshots))"
    by blast
  ultimately show ?thesis
    using nf ts unfolding Let_def e_def [symmetric] snapshots_def [symmetric] by simp
qed

section \<open>Batch operations: the results in the order of the input\<close>

lemma find_unique:
  "distinct (map f xs) \<Longrightarrow> r \<in> set xs \<Longrightarrow> find (\<lambda>x. f x = f r) xs = Some r"
  by (induction xs) (auto simp: image_iff)

lemma find_order_independent:
  assumes "distinct (map f xs)" "distinct (map f ys)" "set xs = set ys"
  shows "find (\<lambda>x. f x = d) xs = find (\<lambda>x. f x = d) ys"
proof (cases "find (\<lambda>x. f x = d) xs")
  case None
  then have "\<not> (\<exists>x. x \<in> set xs \<and> f x = d)" unfolding find_None_iff .
  then have "\<not> (\<exists>x. x \<in> set ys \<and> f x = d)" using assms(3) by simp
  then have "find (\<lambda>x. f x = d) ys = None" unfolding find_None_iff .
  with None show ?thesis by simp
next
  case (Some r)
  then have "r \<in> set xs" "f r = d" by (auto simp: find_Some_iff in_set_conv_nth)
  then have "find (\<lambda>x. f x = f r) ys = Some r" using assms find_unique [of f ys r] by simp
  with Some \<open>f r = d\<close> show ?thesis by simp
qed

lemma restored_domain:
  "f (case find (\<lambda>r. f r = d) results of Some r \<Rightarrow> r | None \<Rightarrow> ph) = (if (\<exists>r \<in> set results. f r = d) then d else f ph)"
proof (cases "find (\<lambda>r. f r = d) results")
  case None
  then have "\<not> (\<exists>r \<in> set results. f r = d)" by (auto simp: find_None_iff)
  then show ?thesis by (simp add: None)
next
  case (Some r)
  then have "r \<in> set results" "f r = d" by (auto simp: find_Some_iff in_set_conv_nth)
  with Some show ?thesis by auto
qed

lemma sorted_spam_domains: "map sa_domain (sortedResults_spam domains results) = domainList domains"
proof -
  have "sa_domain (case find (\<lambda>r. sa_domain r = d) results of Some r \<Rightarrow> r | None \<Rightarrow> spam_placeholder d) = d" for d
    unfolding restored_domain by (simp add: spam_placeholder_def)
  then show ?thesis by (simp add: sortedResults_spam_def comp_def)
qed

lemma sorted_complete_domains: "map cr_domain (sortedResults_complete domains results) = domainList domains"
proof -
  have "cr_domain (case find (\<lambda>r. cr_domain r = d) results of Some r \<Rightarrow> r | None \<Rightarrow> complete_placeholder d) = d" for d
    unfolding restored_domain by (simp add: complete_placeholder_def)
  then show ?thesis by (simp add: sortedResults_complete_def comp_def)
qed

lemma sorted_spam_nth:
  assumes "i < length (domainList domains)"
  shows "sortedResults_spam domains results ! i =
     (case find (\<lambda>r. sa_domain r = domainList domains ! i) results of
        Some r \<Rightarrow> r | None \<Rightarrow> spam_placeholder (domainList domains ! i))"
  using assms by (simp add: sortedResults_spam_def)

lemma sorted_complete_nth:
  assumes "i < length (domainList domains)"
  shows "sortedResults_complete domains results ! i =
     (case find (\<lambda>r. cr_domain r = domainList domains ! i) results of
        Some r \<Rightarrow> r | None \<Rightarrow> complete_placeholder (domainList domains ! i))"
  using assms by (simp add: sortedResults_complete_def)

text \<open>
  C9. Whatever results the per-domain analyses have recorded, and in whatever order,
  both batch operations return one entry per trimmed non-empty input domain, in the
  order of the input: the domains of the entries are the input's. A domain without a
  recorded result gets the placeholder entry, of status UNAVAILABLE; a domain with one
  gets it; and when each domain has at most one recorded result, the array returned
  does not depend on the order in which the results were recorded.
\<close>

theorem batch_results_in_input_order:
  "map sa_domain (sortedResults_spam domains results) = domainList domains
   \<and> map cr_domain (sortedResults_complete domains cresults) = domainList domains
   \<and> (i < length (domainList domains) \<and> domainList domains ! i \<notin> sa_domain ` set results \<longrightarrow>
        sortedResults_spam domains results ! i = spam_placeholder (domainList domains ! i)
        \<and> sa_status (sortedResults_spam domains results ! i) = UNAVAILABLE)
   \<and> (i < length (domainList domains) \<and> domainList domains ! i \<notin> cr_domain ` set cresults \<longrightarrow>
        sortedResults_complete domains cresults ! i = complete_placeholder (domainList domains ! i)
        \<and> cr_status (sortedResults_complete domains cresults ! i) = UNAVAILABLE)
   \<and> (i < length (domainList domains) \<and> r \<in> set results \<and> sa_domain r = domainList domains ! i
        \<and> distinct (map sa_domain results) \<longrightarrow> sortedResults_spam domains results ! i = r)
   \<and> (i < length (domainList domains) \<and> c \<in> set cresults \<and> cr_domain c = domainList domains ! i
        \<and> distinct (map cr_domain cresults) \<longrightarrow> sortedResults_complete domains cresults ! i = c)
   \<and> (distinct (map sa_domain results) \<and> distinct (map sa_domain results') \<and> set results' = set results
        \<longrightarrow> sortedResults_spam domains results' = sortedResults_spam domains results)
   \<and> (distinct (map cr_domain cresults) \<and> distinct (map cr_domain cresults') \<and> set cresults' = set cresults
        \<longrightarrow> sortedResults_complete domains cresults' = sortedResults_complete domains cresults)"
proof (intro conjI impI)
  show "map sa_domain (sortedResults_spam domains results) = domainList domains"
    by (rule sorted_spam_domains)
  show "map cr_domain (sortedResults_complete domains cresults) = domainList domains"
    by (rule sorted_complete_domains)
next
  assume a: "i < length (domainList domains) \<and> domainList domains ! i \<notin> sa_domain ` set results"
  then have "find (\<lambda>r. sa_domain r = domainList domains ! i) results = None"
    by (force simp: find_None_iff)
  with a show "sortedResults_spam domains results ! i = spam_placeholder (domainList domains ! i)"
    by (simp add: sorted_spam_nth)
  then show "sa_status (sortedResults_spam domains results ! i) = UNAVAILABLE"
    by (simp add: spam_placeholder_def)
next
  assume a: "i < length (domainList domains) \<and> domainList domains ! i \<notin> cr_domain ` set cresults"
  then have "find (\<lambda>r. cr_domain r = domainList domains ! i) cresults = None"
    by (force simp: find_None_iff)
  with a show "sortedResults_complete domains cresults ! i = complete_placeholder (domainList domains ! i)"
    by (simp add: sorted_complete_nth)
  then show "cr_status (sortedResults_complete domains cresults ! i) = UNAVAILABLE"
    by (simp add: complete_placeholder_def)
next
  assume a: "i < length (domainList domains) \<and> r \<in> set results \<and> sa_domain r = domainList domains ! i
        \<and> distinct (map sa_domain results)"
  then have "find (\<lambda>x. sa_domain x = sa_domain r) results = Some r"
    using find_unique [of sa_domain results r] by simp
  with a show "sortedResults_spam domains results ! i = r"
    by (simp add: sorted_spam_nth)
next
  assume a: "i < length (domainList domains) \<and> c \<in> set cresults \<and> cr_domain c = domainList domains ! i
        \<and> distinct (map cr_domain cresults)"
  then have "find (\<lambda>x. cr_domain x = cr_domain c) cresults = Some c"
    using find_unique [of cr_domain cresults c] by simp
  with a show "sortedResults_complete domains cresults ! i = c"
    by (simp add: sorted_complete_nth)
next
  assume "distinct (map sa_domain results) \<and> distinct (map sa_domain results') \<and> set results' = set results"
  then have "find (\<lambda>x. sa_domain x = d) results' = find (\<lambda>x. sa_domain x = d) results" for d
    using find_order_independent [of sa_domain results' results d] by simp
  then show "sortedResults_spam domains results' = sortedResults_spam domains results"
    by (simp add: sortedResults_spam_def)
next
  assume "distinct (map cr_domain cresults) \<and> distinct (map cr_domain cresults') \<and> set cresults' = set cresults"
  then have "find (\<lambda>x. cr_domain x = d) cresults' = find (\<lambda>x. cr_domain x = d) cresults" for d
    using find_order_independent [of cr_domain cresults' cresults d] by simp
  then show "sortedResults_complete domains cresults' = sortedResults_complete domains cresults"
    by (simp add: sortedResults_complete_def)
qed

text \<open>
  Four input lines, one blank; the analyses of \<open>c.com\<close> and \<open>a.com\<close> complete in this
  order and \<open>b.com\<close> records nothing.
\<close>

theorem batch_results_in_input_order_witness:
  "(let domains = ['' b.com '', ''  '', ''a.com'', ''c.com''];
        rA = (spam_placeholder ''a.com'')\<lparr>sa_status := CLEAN, sa_error := None\<rparr>;
        rC = (spam_placeholder ''c.com'')\<lparr>sa_status := SPAM, sa_error := None\<rparr>;
        cA = (complete_placeholder ''a.com'')\<lparr>cr_status := COMPLETE, cr_error := None\<rparr>;
        cC = (complete_placeholder ''c.com'')\<lparr>cr_status := NO_SNAPSHOTS, cr_error := None\<rparr>
    in domainList domains = [''b.com'', ''a.com'', ''c.com'']
       \<and> sortedResults_spam domains [rC, rA] ! 0 = spam_placeholder ''b.com''
       \<and> sa_status (sortedResults_spam domains [rC, rA] ! 0) = UNAVAILABLE
       \<and> sortedResults_spam domains [rC, rA] ! 1 = rA
       \<and> sortedResults_spam domains [rA, rC] = sortedResults_spam domains [rC, rA]
       \<and> sortedResults_complete domains [cC, cA] ! 0 = complete_placeholder ''b.com''
       \<and> cr_status (sortedResults_complete domains [cC, cA] ! 0) = UNAVAILABLE
       \<and> sortedResults_complete domains [cC, cA] ! 1 = cA
       \<and> sortedResults_complete domains [cA, cC] = sortedResults_complete domains [cC, cA])"
proof -
  define domains where "domains = ['' b.com '', ''  '', ''a.com'', ''c.com'']"
  define rA where "rA = (spam_placeholder ''a.com'')\<lparr>sa_status := CLEAN, sa_error := None\<rparr>"
  define rC where "rC = (spam_placeholder ''c.com'')\<lparr>sa_status := SPAM, sa_error := None\<rparr>"
  define cA where "cA = (complete_placeholder ''a.com'')\<lparr>cr_status := COMPLETE, cr_error := None\<rparr>"
  define cC where "cC = (complete_placeholder ''c.com'')\<lparr>cr_status := NO_SNAPSHOTS, cr_error := None\<rparr>"
  have dl: "domainList domains = [''b.com'', ''a.com'', ''c.com'']"
    unfolding domains_def by code_simp
  have d: "sa_domain rA = ''a.com''" "sa_domain rC = ''c.com''"
          "cr_domain cA = ''a.com''" "cr_domain cC = ''c.com''"
    by (simp_all add: rA_def rC_def cA_def cC_def spam_placeholder_def complete_placeholder_def)
  have ne: "rA \<noteq> rC" "cA \<noteq> cC" using d by auto
  note T0 = batch_results_in_input_order [where domains = domains and results = "[rC, rA]"
      and cresults = "[cC, cA]" and i = 0 and r = rA and c = cA and results' = "[rA, rC]"
      and cresults' = "[cA, cC]"]
  note T1 = batch_results_in_input_order [where domains = domains and results = "[rC, rA]"
      and cresults = "[cC, cA]" and i = 1 and r = rA and c = cA and results' = "[rA, rC]"
      and cresults' = "[cA, cC]"]
  have 1: "sortedResults_spam domains [rC, rA] ! 0 = spam_placeholder ''b.com''
        \<and> sa_status (sortedResults_spam domains [rC, rA] ! 0) = UNAVAILABLE"
    using T0 [THEN conjunct2, THEN conjunct2, THEN conjunct1] by (simp add: dl d spam_placeholder_def)
  have 2: "sortedResults_complete domains [cC, cA] ! 0 = complete_placeholder ''b.com''
        \<and> cr_status (sortedResults_complete domains [cC, cA] ! 0) = UNAVAILABLE"
    using T0 [THEN conjunct2, THEN conjunct2, THEN conjunct2, THEN conjunct1]
    by (simp add: dl d complete_placeholder_def)
  have 3: "sortedResults_spam domains [rC, rA] ! 1 = rA"
    using T1 [THEN conjunct2, THEN conjunct2, THEN conjunct2, THEN conjunct2, THEN conjunct1]
    by (simp add: dl d)
  have 4: "sortedResults_complete domains [cC, cA] ! 1 = cA"
    using T1 [THEN conjunct2, THEN conjunct2, THEN conjunct2, THEN conjunct2, THEN conjunct2, THEN conjunct1]
    by (simp add: dl d)
  have 5: "sortedResults_spam domains [rA, rC] = sortedResults_spam domains [rC, rA]"
    using T1 [THEN conjunct2, THEN conjunct2, THEN conjunct2, THEN conjunct2, THEN conjunct2,
              THEN conjunct2, THEN conjunct1]
    by (auto simp: d)
  have 6: "sortedResults_complete domains [cA, cC] = sortedResults_complete domains [cC, cA]"
    using T1 [THEN conjunct2, THEN conjunct2, THEN conjunct2, THEN conjunct2, THEN conjunct2,
              THEN conjunct2, THEN conjunct2]
    by (auto simp: d)
  from dl 1 2 3 4 5 6 show ?thesis
    unfolding Let_def domains_def [symmetric] rA_def [symmetric] rC_def [symmetric]
      cA_def [symmetric] cC_def [symmetric]
    by blast
qed

end
